theory Spec2Isabelle
  imports Complex_Main
begin

section \<open>Numbers\<close>

text \<open>
  Every number of the program is a JavaScript number, an IEEE 754 double. The embedding
  takes a finite number as a \<^typ>\<open>real\<close>. Where the rounding of the arithmetic decides
  what the program returns, in the tick loop and at the end point of the path sampler,
  every operation rounds its exact result to the nearest double with \<open>fl64\<close>. The other
  functions are written in exact arithmetic. Two of them can be reached with a zero
  divisor or with a logarithm of a number that is not positive, and are asked about
  there: \<open>getColor\<close> and \<open>getNiceStep\<close>. They are written over \<open>jsnum\<close>, which adds the
  infinities and NaN (the sign of a zero is not modelled). Everywhere else a division of
  the source is written \<open>/\<close>. Where a theorem evaluates such a quotient, its hypotheses
  make the divisor nonzero; the other theorems relate a quotient of the code to the same
  quotient, whatever its value.
\<close>

text \<open>
  Rounding to the nearest integer, a tie to the even one, and with it the double nearest
  to a real: 53 significant bits, a tie to the even significand, subnormal below
  \<open>2\<^sup>-\<^sup>1\<^sup>0\<^sup>2\<^sup>2\<close>. A result beyond the largest double, which the language makes an
  infinity, is not modelled.
\<close>

definition round_even :: "real \<Rightarrow> int" where
  "round_even r =
     (let f = \<lfloor>r\<rfloor>
      in if r - of_int f < 1 / 2 then f
         else if 1 / 2 < r - of_int f then f + 1
         else if even f then f else f + 1)"

definition fl64 :: "real \<Rightarrow> real" where
  "fl64 x =
     (if x = 0 then 0
      else (let e = max \<lfloor>log 2 \<bar>x\<bar>\<rfloor> (- 1022);
                ulp = 2 powi (e - 52)
            in of_int (round_even (x / ulp)) * ulp))"

datatype jsnum = Num real | PosInf | NegInf | NaN

text \<open>The operations of the language on \<open>jsnum\<close>, with their special cases.\<close>

fun js_div :: "jsnum \<Rightarrow> jsnum \<Rightarrow> jsnum" where
  "js_div (Num a) (Num b) =
     (if b \<noteq> 0 then Num (a / b)
      else if a = 0 then NaN else if 0 < a then PosInf else NegInf)"
| "js_div (Num a) PosInf = Num 0"
| "js_div (Num a) NegInf = Num 0"
| "js_div PosInf (Num b) = (if 0 \<le> b then PosInf else NegInf)"
| "js_div NegInf (Num b) = (if 0 \<le> b then NegInf else PosInf)"
| "js_div a b = NaN"

fun js_mul :: "jsnum \<Rightarrow> jsnum \<Rightarrow> jsnum" where
  "js_mul (Num a) (Num b) = Num (a * b)"
| "js_mul (Num a) PosInf = (if a = 0 then NaN else if 0 < a then PosInf else NegInf)"
| "js_mul (Num a) NegInf = (if a = 0 then NaN else if 0 < a then NegInf else PosInf)"
| "js_mul PosInf (Num b) = (if b = 0 then NaN else if 0 < b then PosInf else NegInf)"
| "js_mul NegInf (Num b) = (if b = 0 then NaN else if 0 < b then NegInf else PosInf)"
| "js_mul PosInf PosInf = PosInf"
| "js_mul NegInf NegInf = PosInf"
| "js_mul PosInf NegInf = NegInf"
| "js_mul NegInf PosInf = NegInf"
| "js_mul a b = NaN"

text \<open>\<open>Math.log10\<close>, \<open>Math.floor\<close> and \<open>Math.pow(10, e)\<close>.\<close>

fun js_log10 :: "jsnum \<Rightarrow> jsnum" where
  "js_log10 (Num a) = (if 0 < a then Num (log 10 a) else if a = 0 then NegInf else NaN)"
| "js_log10 PosInf = PosInf"
| "js_log10 NegInf = NaN"
| "js_log10 NaN = NaN"

fun js_floor :: "jsnum \<Rightarrow> jsnum" where
  "js_floor (Num a) = Num (of_int \<lfloor>a\<rfloor>)"
| "js_floor a = a"

fun js_pow10 :: "jsnum \<Rightarrow> jsnum" where
  "js_pow10 (Num e) = Num (10 powr e)"
| "js_pow10 PosInf = PosInf"
| "js_pow10 NegInf = Num 0"
| "js_pow10 NaN = NaN"

text \<open>The comparison \<open>a < c\<close> with a finite \<open>c\<close>: false on NaN.\<close>

fun js_lt :: "jsnum \<Rightarrow> real \<Rightarrow> bool" where
  "js_lt (Num a) c = (a < c)"
| "js_lt NegInf c = True"
| "js_lt PosInf c = False"
| "js_lt NaN c = False"

section \<open>NumberPlane2D: the coordinate mapper\<close>

text \<open>
  The props of \<open>NumberPlane2D\<close> that the coordinate system is built from
  (\<open>width\<close>, \<open>height\<close>, \<open>xRange\<close>, \<open>yRange\<close>, \<open>padding\<close>; \<open>padding\<close> after its default 20).
\<close>

record NumberPlane2DProps =
  plane_width :: real
  plane_height :: real
  xRange :: "real \<times> real"
  yRange :: "real \<times> real"
  padding :: real

text \<open>\<^verbatim>\<open>const mapX = (val) => plotX + ((val - xMin) / xSpan) * plotW\<close>\<close>

definition mapX :: "NumberPlane2DProps \<Rightarrow> real \<Rightarrow> real" where
  "mapX props val =
     (let (xMin, xMax) = xRange props;
          xSpan = xMax - xMin;
          plotX = padding props;
          plotW = plane_width props - 2 * padding props
      in plotX + ((val - xMin) / xSpan) * plotW)"

text \<open>\<^verbatim>\<open>const mapY = (val) => plotY + plotH - ((val - yMin) / ySpan) * plotH\<close>\<close>

definition mapY :: "NumberPlane2DProps \<Rightarrow> real \<Rightarrow> real" where
  "mapY props val =
     (let (yMin, yMax) = yRange props;
          ySpan = yMax - yMin;
          plotY = padding props;
          plotH = plane_height props - 2 * padding props
      in plotY + plotH - ((val - yMin) / ySpan) * plotH)"

text \<open>
  \<open>getNiceStep(range, targetTicks)\<close>, for finite arguments; \<open>rng\<close> is the parameter
  \<open>range\<close>, and \<open>targetTicks\<close> has the default 5. The function has no \<open>throw\<close>: it
  returns the local \<open>step\<close>.
\<close>

definition getNiceStep :: "real \<Rightarrow> real \<Rightarrow> jsnum" where
  "getNiceStep rng targetTicks =
     (let rawStep = js_div (Num rng) (Num targetTicks);
          mag = js_pow10 (js_floor (js_log10 rawStep));
          normalized = js_div rawStep mag
      in if js_lt normalized 1.5 then js_mul (Num 1) mag
         else if js_lt normalized 3.5 then js_mul (Num 2) mag
         else if js_lt normalized 7.5 then js_mul (Num 5) mag
         else js_mul (Num 10) mag)"

text \<open>
  The loop \<^verbatim>\<open>for (let v = start; v <= max + 1e-9; v += step) ticks.push(v)\<close> of
  \<open>getTicks\<close>, in the arithmetic of doubles: the literal \<open>1e-9\<close>, the sum \<open>max + 1e-9\<close>
  and the sum \<open>v + step\<close> are rounded. The loop does not end for every step, so its model
  is a partial function: \<open>None\<close> is a loop that never returns.
\<close>

partial_function (option) getTicks_loop ::
    "real \<Rightarrow> real \<Rightarrow> real \<Rightarrow> real list \<Rightarrow> real list option" where
  "getTicks_loop v maxv step ticks =
     (if v \<le> fl64 (maxv + fl64 (1 / 10 ^ 9))
      then getTicks_loop (fl64 (v + step)) maxv step (ticks @ [v])
      else Some ticks)"

text \<open>
  \<open>getTicks(min, max, step)\<close>, for arguments that are doubles; the quotient and the
  product of \<^verbatim>\<open>Math.ceil(min / step) * step\<close> are rounded, \<open>Math.ceil\<close> of a double is
  exact. With a step of 0 the quotient \<open>min / step\<close> is an infinity or NaN and \<open>start\<close>, its
  product with 0, is NaN: the loop test fails at once and the array is empty.
\<close>

definition getTicks :: "real \<Rightarrow> real \<Rightarrow> real \<Rightarrow> real list option" where
  "getTicks minv maxv step =
     (if step = 0 then Some []
      else (let start = fl64 (of_int \<lceil>fl64 (minv / step)\<rceil> * step)
            in getTicks_loop start maxv step []))"

section \<open>Camera2D: the camera controller\<close>

record CameraState =
  centerX :: real
  centerY :: real
  width :: real
  height :: real

text \<open>The prop \<open>easing\<close> is one of four names; an optional number is absent or a number.\<close>

datatype easing_name = Linear | EaseInOut | EaseIn | EaseOut

text \<open>
  The props of \<open>Camera2D\<close> after the defaults of the parameter list (\<open>easing\<close>
  \<open>easeInOut\<close>, \<open>maintainAspectRatio\<close> true, \<open>clampFrames\<close> true, \<open>zoomMultiplier\<close> 1). The
  four size bounds have no default: \<open>None\<close> is \<open>undefined\<close>. The props \<open>children\<close>,
  \<open>backgroundFill\<close> and \<open>onUpdate\<close> do not enter the computation of the camera state.
\<close>

record Camera2DProps =
  startFrame :: real
  endFrame :: real
  initialState :: CameraState
  targetState :: CameraState
  sceneWidth :: real
  sceneHeight :: real
  easing :: easing_name
  maintainAspectRatio :: bool
  clampFrames :: bool
  zoomMultiplier :: real
  minWidth :: "real option"
  maxWidth :: "real option"
  minHeight :: "real option"
  maxHeight :: "real option"

text \<open>
  The easing functions and \<open>interpolate\<close> belong to the library remotion, not to this
  program. An easing function is named by the expression that builds it, and
  \<open>interpolate\<close> is a parameter of the model.
\<close>

datatype easing_fn = Easing_linear | Easing_in_quad | Easing_out_quad | Easing_inOut_quad

datatype extrapolate = Clamp | Extend

record InterpolateConfig =
  extrapolateLeft :: extrapolate
  extrapolateRight :: extrapolate
  config_easing :: easing_fn

type_synonym interpolate_fn =
  "real \<Rightarrow> real \<times> real \<Rightarrow> real \<times> real \<Rightarrow> InterpolateConfig \<Rightarrow> real"

fun getEasing :: "easing_name \<Rightarrow> easing_fn" where
  "getEasing Linear = Easing_linear"
| "getEasing EaseIn = Easing_in_quad"
| "getEasing EaseOut = Easing_out_quad"
| "getEasing EaseInOut = Easing_inOut_quad"

text \<open>
  The test \<^verbatim>\<open>if (minWidth)\<close> on an optional number: \<open>undefined\<close> and 0 are falsy, every
  other finite number is truthy.
\<close>

fun truthy :: "real option \<Rightarrow> bool" where
  "truthy None = False"
| "truthy (Some v) = (v \<noteq> 0)"

text \<open>
  What one evaluation of \<open>Camera2D\<close> computes: the camera state handed to \<open>onUpdate\<close>,
  and the three numbers of the CSS transform
  \<^verbatim>\<open>translate(${translateX}px, ${translateY}px) scale(${scale})\<close>.
\<close>

record Camera2DResult =
  state :: CameraState
  scale :: real
  translateX :: real
  translateY :: real

definition Camera2D :: "interpolate_fn \<Rightarrow> real \<Rightarrow> Camera2DProps \<Rightarrow> Camera2DResult" where
  "Camera2D interpolate frame props =
     (let easingFn = getEasing (easing props);
          interpolateConfig =
            \<lparr>extrapolateLeft = (if clampFrames props then Clamp else Extend),
             extrapolateRight = (if clampFrames props then Clamp else Extend),
             config_easing = easingFn\<rparr>;
          currentCenterX = interpolate frame (startFrame props, endFrame props)
            (centerX (initialState props), centerX (targetState props)) interpolateConfig;
          currentCenterY = interpolate frame (startFrame props, endFrame props)
            (centerY (initialState props), centerY (targetState props)) interpolateConfig;
          currentWidth = interpolate frame (startFrame props, endFrame props)
            (width (initialState props), width (targetState props)) interpolateConfig;
          currentHeight = interpolate frame (startFrame props, endFrame props)
            (height (initialState props), height (targetState props)) interpolateConfig;
          currentWidth = (if truthy (minWidth props)
            then max currentWidth (the (minWidth props)) else currentWidth);
          currentWidth = (if truthy (maxWidth props)
            then min currentWidth (the (maxWidth props)) else currentWidth);
          currentHeight = (if truthy (minHeight props)
            then max currentHeight (the (minHeight props)) else currentHeight);
          currentHeight = (if truthy (maxHeight props)
            then min currentHeight (the (maxHeight props)) else currentHeight);
          (currentWidth, currentHeight) =
            (if zoomMultiplier props \<noteq> 1
             then (currentWidth / zoomMultiplier props, currentHeight / zoomMultiplier props)
             else (currentWidth, currentHeight));
          currentHeight =
            (if maintainAspectRatio props
             then (let sceneAspect = sceneWidth props / sceneHeight props
                   in currentWidth / sceneAspect)
             else currentHeight);
          scale = sceneWidth props / currentWidth;
          translateX = sceneWidth props / 2 - currentCenterX * scale;
          translateY = sceneHeight props / 2 - currentCenterY * scale
      in \<lparr>state = \<lparr>centerX = currentCenterX, centerY = currentCenterY,
                      width = currentWidth, height = currentHeight\<rparr>,
          scale = scale, translateX = translateX, translateY = translateY\<rparr>)"

text \<open>
  The post-interpolation adjustments as the specification words them, one definition a
  step: (1) clamp the size to the bounds that are given, (2) divide both by
  \<open>zoomMultiplier\<close>, (3) under \<open>maintainAspectRatio\<close> recompute the height from the width.
  A bound is given when the prop is present, whatever its value.
\<close>

definition spec_clamp :: "real option \<Rightarrow> real option \<Rightarrow> real \<Rightarrow> real" where
  "spec_clamp lo hi v =
     (let v1 = (case lo of None \<Rightarrow> v | Some b \<Rightarrow> max v b)
      in case hi of None \<Rightarrow> v1 | Some b \<Rightarrow> min v1 b)"

definition spec_step1 :: "Camera2DProps \<Rightarrow> real \<times> real \<Rightarrow> real \<times> real" where
  "spec_step1 props wh =
     (spec_clamp (minWidth props) (maxWidth props) (fst wh),
      spec_clamp (minHeight props) (maxHeight props) (snd wh))"

definition spec_step2 :: "Camera2DProps \<Rightarrow> real \<times> real \<Rightarrow> real \<times> real" where
  "spec_step2 props wh = (fst wh / zoomMultiplier props, snd wh / zoomMultiplier props)"

definition spec_step3 :: "Camera2DProps \<Rightarrow> real \<times> real \<Rightarrow> real \<times> real" where
  "spec_step3 props wh =
     (if maintainAspectRatio props
      then (fst wh, fst wh / (sceneWidth props / sceneHeight props))
      else wh)"

definition spec_postLerp :: "Camera2DProps \<Rightarrow> real \<times> real \<Rightarrow> real \<times> real" where
  "spec_postLerp props wh = spec_step3 props (spec_step2 props (spec_step1 props wh))"

text \<open>The props with every size bound of 0 taken away.\<close>

definition ignore_zero :: "real option \<Rightarrow> real option" where
  "ignore_zero b = (if b = Some 0 then None else b)"

definition nonzero_bounds :: "Camera2DProps \<Rightarrow> Camera2DProps" where
  "nonzero_bounds props =
     props\<lparr>minWidth := ignore_zero (minWidth props), maxWidth := ignore_zero (maxWidth props),
       minHeight := ignore_zero (minHeight props),
       maxHeight := ignore_zero (maxHeight props)\<rparr>"

text \<open>The four interpolated numbers of a frame, before the adjustments.\<close>

definition interpolated :: "interpolate_fn \<Rightarrow> real \<Rightarrow> Camera2DProps \<Rightarrow> CameraState" where
  "interpolated interpolate frame props =
     (let interpolateConfig =
            \<lparr>extrapolateLeft = (if clampFrames props then Clamp else Extend),
             extrapolateRight = (if clampFrames props then Clamp else Extend),
             config_easing = getEasing (easing props)\<rparr>
      in \<lparr>centerX = interpolate frame (startFrame props, endFrame props)
            (centerX (initialState props), centerX (targetState props)) interpolateConfig,
          centerY = interpolate frame (startFrame props, endFrame props)
            (centerY (initialState props), centerY (targetState props)) interpolateConfig,
          width = interpolate frame (startFrame props, endFrame props)
            (width (initialState props), width (targetState props)) interpolateConfig,
          height = interpolate frame (startFrame props, endFrame props)
            (height (initialState props), height (targetState props)) interpolateConfig\<rparr>)"

text \<open>
  A size bound read as a bound on a size: a strictly positive minimum is enforced with
  \<open>max\<close>, a strictly positive maximum with \<open>min\<close>, a bound of 0 and an absent bound
  leave the value as it is.
\<close>

fun positive_min_bound :: "real option \<Rightarrow> real \<Rightarrow> real" where
  "positive_min_bound None v = v"
| "positive_min_bound (Some b) v = (if 0 < b then max v b else v)"

fun positive_max_bound :: "real option \<Rightarrow> real \<Rightarrow> real" where
  "positive_max_bound None v = v"
| "positive_max_bound (Some b) v = (if 0 < b then min v b else v)"

fun not_negative :: "real option \<Rightarrow> bool" where
  "not_negative None = True"
| "not_negative (Some b) = (0 \<le> b)"

section \<open>HydraulicLines: the path sampler and the flow dots\<close>

record point =
  px :: real
  py :: real

text \<open>
  An entry of the local array \<open>segments\<close>; the field \<open>length\<close> of the source is
  \<open>seg_length\<close> here.
\<close>

record segment =
  p1 :: point
  p2 :: point
  seg_length :: real
  cumulative :: real

text \<open>The one exception the sampler could raise: a property read on \<open>undefined\<close>.\<close>

datatype error = TypeError

text \<open>
  \<open>String.prototype.matchAll\<close> with the regular expression
  \<^verbatim>\<open>/([-\d.]+)[, ]+([-\d.]+)/g\<close> and \<open>parseFloat\<close> are built-ins of the language: the
  model takes them as parameters, the first as the function from the path string to the
  two captured groups of every match. Neither raises on a string.
\<close>

type_synonym matchAll_fn = "string \<Rightarrow> (string \<times> string) list"
type_synonym parseFloat_fn = "string \<Rightarrow> real"

definition parse_coords :: "matchAll_fn \<Rightarrow> parseFloat_fn \<Rightarrow> string \<Rightarrow> point list" where
  "parse_coords matchAll parseFloat d =
     map (\<lambda>(m1, m2). \<lparr>px = parseFloat m1, py = parseFloat m2\<rparr>) (matchAll d)"

text \<open>
  The loop \<^verbatim>\<open>for (let i = 0; i < coords.length - 1; i++)\<close>, on the points from
  \<open>coords[i]\<close> on, with the array \<open>segments\<close> and \<open>totalLength\<close> so far.
\<close>

fun segments_loop :: "point list \<Rightarrow> segment list \<times> real \<Rightarrow> segment list \<times> real" where
  "segments_loop (a # b # rest) (segments, totalLength) =
     (let dist = sqrt ((px b - px a)\<^sup>2 + (py b - py a)\<^sup>2)
      in segments_loop (b # rest)
           (segments @ [\<lparr>p1 = a, p2 = b, seg_length = dist, cumulative = totalLength\<rparr>],
            totalLength + dist))"
| "segments_loop coords acc = acc"

text \<open>
  \<^verbatim>\<open>segments.find(...) || segments[segments.length - 1]\<close>: the first segment that
  satisfies the test, else the last one, which is \<open>undefined\<close> for an empty array.
\<close>

definition find_or_last :: "(segment \<Rightarrow> bool) \<Rightarrow> segment list \<Rightarrow> segment option" where
  "find_or_last P segments =
     (case find P segments of
        Some s \<Rightarrow> Some s
      | None \<Rightarrow> (if segments = [] then None else Some (last segments)))"

definition getPointOnPolyline ::
    "matchAll_fn \<Rightarrow> parseFloat_fn \<Rightarrow> string \<Rightarrow> real \<Rightarrow> error + point" where
  "getPointOnPolyline matchAll parseFloat d t =
     (let coords = parse_coords matchAll parseFloat d
      in if length coords < 2 then Inr \<lparr>px = 0, py = 0\<rparr>
         else
           (let (segments, totalLength) = segments_loop coords ([], 0);
                targetLength = t * totalLength
            in case find_or_last
                      (\<lambda>s. targetLength \<ge> cumulative s
                           \<and> targetLength \<le> cumulative s + seg_length s) segments of
                 None \<Rightarrow> Inl TypeError
               | Some segment \<Rightarrow>
                   (let segmentOffset = targetLength - cumulative segment;
                        segmentT = (if seg_length segment = 0 then 0
                                    else segmentOffset / seg_length segment);
                        x = px (p1 segment) + (px (p2 segment) - px (p1 segment)) * segmentT;
                        y = py (p1 segment) + (py (p2 segment) - py (p1 segment)) * segmentT
                    in Inr \<lparr>px = x, py = y\<rparr>)))"

text \<open>
  The same two pieces of \<open>getPointOnPolyline\<close> in the arithmetic of doubles: every
  subtraction, square, sum, square root, product and quotient of the source is rounded.
  \<open>Math.sqrt\<close> rounds correctly; \<open>Math.pow(x, 2)\<close> is taken to do so, and does wherever
  the square is itself a double, as it is in every evaluation below. Whether the
  function raises, what it returns on a degenerate path and how many dots \<open>renderDots\<close>
  builds from it do not depend on the rounding; where the end point lies does.
\<close>

fun segments_loop_fl64 :: "point list \<Rightarrow> segment list \<times> real \<Rightarrow> segment list \<times> real" where
  "segments_loop_fl64 (a # b # rest) (segments, totalLength) =
     (let dist = fl64 (sqrt (fl64 (fl64 ((fl64 (px b - px a))\<^sup>2)
                                   + fl64 ((fl64 (py b - py a))\<^sup>2))))
      in segments_loop_fl64 (b # rest)
           (segments @ [\<lparr>p1 = a, p2 = b, seg_length = dist, cumulative = totalLength\<rparr>],
            fl64 (totalLength + dist)))"
| "segments_loop_fl64 coords acc = acc"

definition getPointOnPolyline_fl64 ::
    "matchAll_fn \<Rightarrow> parseFloat_fn \<Rightarrow> string \<Rightarrow> real \<Rightarrow> error + point" where
  "getPointOnPolyline_fl64 matchAll parseFloat d t =
     (let coords = parse_coords matchAll parseFloat d
      in if length coords < 2 then Inr \<lparr>px = 0, py = 0\<rparr>
         else
           (let (segments, totalLength) = segments_loop_fl64 coords ([], 0);
                targetLength = fl64 (t * totalLength)
            in case find_or_last
                      (\<lambda>s. targetLength \<ge> cumulative s
                           \<and> targetLength \<le> fl64 (cumulative s + seg_length s)) segments of
                 None \<Rightarrow> Inl TypeError
               | Some segment \<Rightarrow>
                   (let segmentOffset = fl64 (targetLength - cumulative segment);
                        segmentT = (if seg_length segment = 0 then 0
                                    else fl64 (segmentOffset / seg_length segment));
                        x = fl64 (px (p1 segment)
                              + fl64 (fl64 (px (p2 segment) - px (p1 segment)) * segmentT));
                        y = fl64 (py (p1 segment)
                              + fl64 (fl64 (py (p2 segment) - py (p1 segment)) * segmentT))
                    in Inr \<lparr>px = x, py = y\<rparr>)))"

text \<open>
  The props that \<open>renderDots\<close> reads, after their defaults (\<open>maxFlow\<close> 100, \<open>dotSize\<close> 6,
  \<open>dotColor\<close> white), and the attributes of a \<open>circle\<close> element it builds.
\<close>

record HydraulicLinesProps =
  maxFlow :: real
  dotSize :: real
  dotColor :: string

record circle =
  circle_key :: nat
  cx :: real
  cy :: real
  circle_r :: real
  fill :: string
  opacity :: real

text \<open>
  The remainder \<open>a % 1\<close> of a finite number: \<open>a\<close> less its integer part, the integer part
  taken towards zero, so that the result has the sign of \<open>a\<close>.
\<close>

definition js_mod1 :: "real \<Rightarrow> real" where
  "js_mod1 a = a - of_int (if 0 \<le> a then \<lfloor>a\<rfloor> else \<lceil>a\<rceil>)"

text \<open>The loop \<^verbatim>\<open>for (let i = 0; i < numDots; i++)\<close> of \<open>renderDots\<close>, from \<open>i\<close> on.\<close>

function renderDots_loop ::
    "matchAll_fn \<Rightarrow> parseFloat_fn \<Rightarrow> HydraulicLinesProps \<Rightarrow> real \<Rightarrow> string \<Rightarrow> real
       \<Rightarrow> nat \<Rightarrow> nat \<Rightarrow> circle list \<Rightarrow> error + circle list" where
  "renderDots_loop matchAll parseFloat props frame path speed numDots i dots =
     (if i < numDots then
        (let initialOffset = real i / real numDots;
             t = js_mod1 (frame * speed + initialOffset);
             t = (if t < 0 then t + 1 else t)
         in case getPointOnPolyline matchAll parseFloat path t of
              Inl e \<Rightarrow> Inl e
            | Inr pos \<Rightarrow>
                renderDots_loop matchAll parseFloat props frame path speed numDots (Suc i)
                  (dots @ [\<lparr>circle_key = i, cx = px pos, cy = py pos,
                            circle_r = dotSize props, fill = dotColor props,
                            opacity = 0.8\<rparr>]))
      else Inr dots)"
  by pat_completeness auto
termination
  by (relation "measure (\<lambda>(matchAll, parseFloat, props, frame, path, speed, numDots, i, dots).
        numDots - i)") auto

declare renderDots_loop.simps [simp del]

text \<open>
  \<open>renderDots\<close> returns \<open>null\<close> (\<open>None\<close>: nothing is rendered) or the array of circles.
  \<open>frame\<close> is the value of \<open>useCurrentFrame()\<close>.
\<close>

definition renderDots ::
    "matchAll_fn \<Rightarrow> parseFloat_fn \<Rightarrow> HydraulicLinesProps \<Rightarrow> real \<Rightarrow> string \<Rightarrow> real
       \<Rightarrow> error + circle list option" where
  "renderDots matchAll parseFloat props frame path flow =
     (if \<bar>flow\<bar> < 0.01 then Inr None
      else
        (let normFlow = max (- 1) (min 1 (flow / maxFlow props));
             numDots = 8;
             speed = normFlow * 0.01
         in case renderDots_loop matchAll parseFloat props frame path speed numDots 0 [] of
              Inl e \<Rightarrow> Inl e
            | Inr dots \<Rightarrow> Inr (Some dots)))"

section \<open>The colour ramp of HydraulicLines and HydraulicCylinder2D\<close>

record ColorStop =
  offset :: real
  color :: "real \<times> real \<times> real"

text \<open>The local array \<open>stops\<close>, the same in both components.\<close>

definition stops :: "ColorStop list" where
  "stops =
     [\<lparr>offset = 0, color = (0, 0, 255)\<rparr>,
      \<lparr>offset = 0.33, color = (0, 255, 0)\<rparr>,
      \<lparr>offset = 0.66, color = (255, 255, 0)\<rparr>,
      \<lparr>offset = 1, color = (255, 0, 0)\<rparr>]"

definition lerp :: "real \<Rightarrow> real \<Rightarrow> real \<Rightarrow> real" where
  "lerp a b t = a + (b - a) * t"

text \<open>
  \<^verbatim>\<open>Math.round(c).toString(16).padStart(2, "0")\<close>: \<open>Math.round\<close> rounds a half up, and
  \<open>toString(16)\<close> writes a negative integer with a minus sign.
\<close>

definition hexDigit :: "nat \<Rightarrow> char" where
  "hexDigit n = ''0123456789abcdef'' ! n"

function toString16_nat :: "nat \<Rightarrow> string" where
  "toString16_nat n =
     (if n < 16 then [hexDigit n] else toString16_nat (n div 16) @ [hexDigit (n mod 16)])"
  by pat_completeness auto
termination
  by (relation "measure id") auto

declare toString16_nat.simps [simp del]

definition toString16 :: "int \<Rightarrow> string" where
  "toString16 n = (if n < 0 then CHR ''-'' # toString16_nat (nat (- n)) else toString16_nat (nat n))"

definition padStart2 :: "string \<Rightarrow> string" where
  "padStart2 str = replicate (2 - length str) CHR ''0'' @ str"

definition toHex :: "real \<Rightarrow> string" where
  "toHex c = padStart2 (toString16 \<lfloor>c + 1 / 2\<rfloor>)"

definition rgbToHex :: "real \<Rightarrow> real \<Rightarrow> real \<Rightarrow> string" where
  "rgbToHex r g b = ''#'' @ toHex r @ toHex g @ toHex b"

text \<open>
  The loop over the pairs of neighbouring stops, for a finite \<open>t\<close>: the colour it
  returns, or \<open>None\<close> when it ends without a return.
\<close>

fun getColor_loop :: "real \<Rightarrow> ColorStop list \<Rightarrow> string option" where
  "getColor_loop t (start # endStop # rest) =
     (if t \<ge> offset start \<and> t \<le> offset endStop then
        (let localT = (t - offset start) / (offset endStop - offset start);
             r = lerp (fst (color start)) (fst (color endStop)) localT;
             g = lerp (fst (snd (color start))) (fst (snd (color endStop))) localT;
             b = lerp (snd (snd (color start))) (snd (snd (color endStop))) localT
         in Some (rgbToHex r g b))
      else getColor_loop t (endStop # rest))"
| "getColor_loop t rest = None"

text \<open>\<^verbatim>\<open>const t = Math.max(0, Math.min(p, max)) / max\<close>, the same line in both.\<close>

definition getColor_t :: "real \<Rightarrow> real \<Rightarrow> jsnum" where
  "getColor_t maxv p = js_div (Num (max 0 (min p maxv))) (Num maxv)"

text \<open>
  The rest of \<open>getColor\<close>. A \<open>t\<close> that is not finite fails the test
  \<^verbatim>\<open>t >= start.offset && t <= end.offset\<close> of every pair (a comparison with NaN is false,
  and no pair of offsets has an infinity between them), so the loop ends and the
  fallback \<^verbatim>\<open>"#ff0000"\<close> is returned.
\<close>

definition getColor_of_t :: "jsnum \<Rightarrow> string" where
  "getColor_of_t t =
     (case t of
        Num tv \<Rightarrow> (case getColor_loop tv stops of Some c \<Rightarrow> c | None \<Rightarrow> ''#ff0000'')
      | _ \<Rightarrow> ''#ff0000'')"

text \<open>
  \<open>getColor\<close> of HydraulicLines: \<^verbatim>\<open>const max = maxPressure\<close>, the prop with its default 300.
\<close>

definition HydraulicLines_getColor :: "real option \<Rightarrow> real \<Rightarrow> string" where
  "HydraulicLines_getColor maxPressure p =
     (let maxPressure = (case maxPressure of None \<Rightarrow> 300 | Some v \<Rightarrow> v);
          maxv = maxPressure
      in getColor_of_t (getColor_t maxv p))"

text \<open>
  \<open>getColor\<close> of HydraulicCylinder2D: \<^verbatim>\<open>const max = maxP || 300\<close>, on the prop with its
  default 300.
\<close>

definition HydraulicCylinder2D_getColor :: "real option \<Rightarrow> real \<Rightarrow> string" where
  "HydraulicCylinder2D_getColor maxP p =
     (let maxP = (case maxP of None \<Rightarrow> 300 | Some v \<Rightarrow> v);
          maxv = (if maxP \<noteq> 0 then maxP else 300)
      in getColor_of_t (getColor_t maxv p))"

section \<open>Examples and auxiliary definitions\<close>

text \<open>
  An example configuration, and the value \<open>interpolate\<close> has at the start frame of a
  clamped transition: the first number of the output range.
\<close>

definition example_props :: Camera2DProps where
  "example_props =
     \<lparr>startFrame = 0, endFrame = 30,
      initialState = \<lparr>centerX = 100, centerY = 50, width = 1500, height = 700\<rparr>,
      targetState = \<lparr>centerX = 0, centerY = 0, width = 1920, height = 1080\<rparr>,
      sceneWidth = 1920, sceneHeight = 1080, easing = EaseInOut, maintainAspectRatio = True,
      clampFrames = True, zoomMultiplier = 2, minWidth = None, maxWidth = Some 1200,
      minHeight = None, maxHeight = None\<rparr>"

definition bounded_props :: Camera2DProps where
  "bounded_props =
     example_props\<lparr>maintainAspectRatio := False, minWidth := Some 1600, maxWidth := Some 0,
       minHeight := Some 0, maxHeight := Some 500\<rparr>"

definition zero_max_props :: Camera2DProps where
  "zero_max_props = example_props\<lparr>maxWidth := Some 0\<rparr>"

definition at_start :: interpolate_fn where
  "at_start frame inputRange outputRange config = fst outputRange"

text \<open>
  For the proofs about the sampler: the length of a segment, the array \<open>segments\<close> and
  the total length as functions of the points (the loop computes them with accumulators),
  and the test and the interpolation of \<open>getPointOnPolyline\<close> by name.
\<close>

definition point_dist :: "point \<Rightarrow> point \<Rightarrow> real" where
  "point_dist a b = sqrt ((px b - px a)\<^sup>2 + (py b - py a)\<^sup>2)"

fun segments_from :: "real \<Rightarrow> point list \<Rightarrow> segment list" where
  "segments_from c (a # b # rest) =
     \<lparr>p1 = a, p2 = b, seg_length = point_dist a b, cumulative = c\<rparr>
       # segments_from (c + point_dist a b) (b # rest)"
| "segments_from c coords = []"

fun total_from :: "real \<Rightarrow> point list \<Rightarrow> real" where
  "total_from c (a # b # rest) = total_from (c + point_dist a b) (b # rest)"
| "total_from c coords = c"

definition in_segment :: "real \<Rightarrow> segment \<Rightarrow> bool" where
  "in_segment T s \<longleftrightarrow> T \<ge> cumulative s \<and> T \<le> cumulative s + seg_length s"

definition point_in :: "segment \<Rightarrow> real \<Rightarrow> point" where
  "point_in s T =
     (let segmentOffset = T - cumulative s;
          segmentT = (if seg_length s = 0 then 0 else segmentOffset / seg_length s)
      in \<lparr>px = px (p1 s) + (px (p2 s) - px (p1 s)) * segmentT,
          py = py (p1 s) + (py (p2 s) - py (p1 s)) * segmentT\<rparr>)"

text \<open>
  Example paths with what the two built-ins give on them: three points with an
  axis-parallel segment each, a single point, and a point twice.
\<close>

definition example_matchAll :: matchAll_fn where
  "example_matchAll d =
     (if d = ''M 0,0 L 10,0 L 10,5'' then [(''0'', ''0''), (''10'', ''0''), (''10'', ''5'')]
      else if d = ''M 3,4'' then [(''3'', ''4'')]
      else if d = ''M 3,4 L 3,4'' then [(''3'', ''4''), (''3'', ''4'')]
      else [])"

definition example_parseFloat :: parseFloat_fn where
  "example_parseFloat str =
     (if str = ''10'' then 10 else if str = ''5'' then 5 else if str = ''4'' then 4
      else if str = ''3'' then 3 else 0)"

text \<open>
  For the proofs about the sampler in doubles: its array \<open>segments\<close> and total length
  as functions of the points, and the paths on which no operation rounds, those whose
  segments are parallel to an axis and whose coordinates are integers of magnitude at
  most \<open>2\<^sup>2\<^sup>5\<close>.
\<close>

fun segments_from_fl64 :: "real \<Rightarrow> point list \<Rightarrow> segment list" where
  "segments_from_fl64 c (a # b # rest) =
     (let dist = fl64 (sqrt (fl64 (fl64 ((fl64 (px b - px a))\<^sup>2)
                                   + fl64 ((fl64 (py b - py a))\<^sup>2))))
      in \<lparr>p1 = a, p2 = b, seg_length = dist, cumulative = c\<rparr>
           # segments_from_fl64 (fl64 (c + dist)) (b # rest))"
| "segments_from_fl64 c coords = []"

fun total_from_fl64 :: "real \<Rightarrow> point list \<Rightarrow> real" where
  "total_from_fl64 c (a # b # rest) =
     (let dist = fl64 (sqrt (fl64 (fl64 ((fl64 (px b - px a))\<^sup>2)
                                   + fl64 ((fl64 (py b - py a))\<^sup>2))))
      in total_from_fl64 (fl64 (c + dist)) (b # rest))"
| "total_from_fl64 c coords = c"

fun axis_parallel :: "point list \<Rightarrow> bool" where
  "axis_parallel (a # b # rest) = ((px a = px b \<or> py a = py b) \<and> axis_parallel (b # rest))"
| "axis_parallel coords = True"

definition grid_point :: "point \<Rightarrow> bool" where
  "grid_point p \<longleftrightarrow> px p \<in> \<int> \<and> py p \<in> \<int> \<and> \<bar>px p\<bar> \<le> 2 ^ 25 \<and> \<bar>py p\<bar> \<le> 2 ^ 25"

definition grid_segment :: "segment \<Rightarrow> bool" where
  "grid_segment s \<longleftrightarrow>
     cumulative s \<in> \<int> \<and> 0 \<le> cumulative s \<and> seg_length s \<in> \<int> \<and> 0 \<le> seg_length s
     \<and> cumulative s + seg_length s < 2 ^ 53 \<and> grid_point (p1 s) \<and> grid_point (p2 s)
     \<and> seg_length s = point_dist (p1 s) (p2 s)"

text \<open>
  Two more example paths: a triangle with a diagonal segment, and the path of pipe A in
  \<open>CylinderPreview\<close>. \<open>sqrt2_fl64\<close> is the double nearest to the square root of 2.
\<close>

definition triangle_matchAll :: matchAll_fn where
  "triangle_matchAll d =
     (if d = ''M 0,0 L 0,1 L 1,0'' then [(''0'', ''0''), (''0'', ''1''), (''1'', ''0'')]
      else [])"

definition triangle_parseFloat :: parseFloat_fn where
  "triangle_parseFloat str = (if str = ''1'' then 1 else 0)"

definition sqrt2_fl64 :: real where
  "sqrt2_fl64 = 6369051672525773 / 2 ^ 52"

definition pipe_matchAll :: matchAll_fn where
  "pipe_matchAll d =
     (if d = ''M 520,905 L 520,774 L 320,774''
      then [(''520'', ''905''), (''520'', ''774''), (''320'', ''774'')]
      else [])"

definition pipe_parseFloat :: parseFloat_fn where
  "pipe_parseFloat str =
     (if str = ''520'' then 520 else if str = ''905'' then 905
      else if str = ''774'' then 774 else if str = ''320'' then 320 else 0)"

text \<open>
  For the proofs about \<open>getTicks\<close>: the value of the loop variable after \<open>n\<close> rounds.
\<close>

fun tick_iter :: "real \<Rightarrow> real \<Rightarrow> nat \<Rightarrow> real" where
  "tick_iter v step 0 = v"
| "tick_iter v step (Suc n) = tick_iter (fl64 (v + step)) step n"

section \<open>Theorems\<close>

subsection \<open>Rounding to a double\<close>

lemma round_even_near:
  assumes "of_int m - 1 / 2 < r" and "r < of_int m + 1 / 2"
  shows "round_even r = m"
proof -
  consider "\<lfloor>r\<rfloor> = m" | "\<lfloor>r\<rfloor> = m - 1" using assms by linarith
  then show ?thesis
  proof cases
    case 1
    then show ?thesis using assms by (simp add: round_even_def Let_def)
  next
    case 2
    then show ?thesis using assms by (simp add: round_even_def Let_def)
  qed
qed

lemma round_even_int: "round_even (of_int m) = m"
  by (simp add: round_even_def)

lemma round_even_nonneg: "0 \<le> r \<Longrightarrow> 0 \<le> round_even r"
  by (auto simp: round_even_def Let_def)

lemma fl64_binade:
  assumes "2 powi e \<le> \<bar>x\<bar>" and "\<bar>x\<bar> < 2 powi (e + 1)" and "- 1022 \<le> e"
  shows "fl64 x = of_int (round_even (x / 2 powi (e - 52))) * 2 powi (e - 52)"
proof -
  have pos: "0 < \<bar>x\<bar>"
    using assms(1) by (smt (verit) zero_less_power_int)
  have "2 powr (of_int e + 1) = (2 :: real) powi (e + 1)"
    using powr_real_of_int' [of "2 :: real" "e + 1"] by simp
  then have "\<lfloor>log 2 \<bar>x\<bar>\<rfloor> = e"
    using pos assms(1,2) by (subst floor_log_eq_powr_iff) (simp_all add: powr_real_of_int')
  with pos assms(3) show ?thesis
    by (simp add: fl64_def Let_def)
qed

lemma fl64_0: "fl64 0 = 0"
  by (simp add: fl64_def)

lemma fl64_nonneg: "0 \<le> x \<Longrightarrow> 0 \<le> fl64 x"
  by (simp add: fl64_def Let_def round_even_nonneg)

lemma fl64_exact_int:
  assumes "x \<in> \<int>" and "\<bar>x\<bar> < 2 ^ 53"
  shows "fl64 x = x"
proof (cases "x = 0")
  case True
  then show ?thesis by (simp add: fl64_0)
next
  case False
  from assms(1) obtain n where n: "x = of_int n" by (auto elim: Ints_cases)
  with False have "n \<noteq> 0" by auto
  then have "1 \<le> \<bar>n\<bar>" by simp
  then have "(1 :: real) \<le> of_int \<bar>n\<bar>" by (simp only: of_int_1_le_iff)
  then have one: "1 \<le> \<bar>x\<bar>" unfolding n by simp
  define e where "e = \<lfloor>log 2 \<bar>x\<bar>\<rfloor>"
  have "0 \<le> log 2 \<bar>x\<bar>" using one by simp
  then have e0: "0 \<le> e" by (simp add: e_def)
  have "\<bar>x\<bar> < 2 powr 53" using assms(2) by simp
  then have "log 2 \<bar>x\<bar> < 53"
    using one by (subst log_less_iff) simp_all
  then have e52: "e \<le> 52" unfolding e_def by linarith
  define k where "k = nat (52 - e)"
  have ulp: "(2 :: real) powi (e - 52) = 1 / 2 ^ k"
  proof -
    have "e - 52 = - int k" using e52 by (simp add: k_def)
    then show ?thesis by (simp add: power_int_minus divide_inverse)
  qed
  have "x / 2 powi (e - 52) = of_int (n * 2 ^ k)"
    by (simp add: ulp n)
  then have "round_even (x / 2 powi (e - 52)) = n * 2 ^ k"
    by (simp only: round_even_int)
  moreover have "max e (- 1022) = e" using e0 by simp
  ultimately have "fl64 x = of_int (n * 2 ^ k) * 2 powi (e - 52)"
    using False by (simp add: fl64_def Let_def e_def [symmetric])
  then show ?thesis by (simp add: ulp n)
qed

lemma fl64_1: "fl64 1 = 1"
  by (subst fl64_binade [where e = 0]) (simp_all add: round_even_def power_int_minus)


subsection \<open>Orientation of the coordinate mapper\<close>

lemma scaled_offset_strict_mono:
  fixes a b lo span len :: real
  assumes "0 < span" and "0 < len" and "a < b"
  shows "((a - lo) / span) * len < ((b - lo) / span) * len"
proof -
  from assms(1,3) have "(a - lo) / span < (b - lo) / span"
    by (simp add: divide_strict_right_mono)
  then show ?thesis
    using assms(2) by (rule mult_strict_right_mono)
qed

text \<open>
  C2. For a valid configuration (both ranges with min < max, plot width and height
  larger than twice the padding), \<open>mapX\<close> is strictly increasing in world X and \<open>mapY\<close>
  is strictly decreasing in world Y.
\<close>

theorem mapX_increasing_mapY_decreasing:
  assumes "fst (xRange props) < snd (xRange props)"
    and "fst (yRange props) < snd (yRange props)"
    and "2 * padding props < plane_width props"
    and "2 * padding props < plane_height props"
    and "a < b"
  shows "mapX props a < mapX props b \<and> mapY props b < mapY props a"
proof
  have "((a - fst (xRange props)) / (snd (xRange props) - fst (xRange props)))
          * (plane_width props - 2 * padding props)
      < ((b - fst (xRange props)) / (snd (xRange props) - fst (xRange props)))
          * (plane_width props - 2 * padding props)"
    using assms(1,3,5) by (intro scaled_offset_strict_mono) simp_all
  then show "mapX props a < mapX props b"
    by (simp add: mapX_def split_beta)
next
  have "((a - fst (yRange props)) / (snd (yRange props) - fst (yRange props)))
          * (plane_height props - 2 * padding props)
      < ((b - fst (yRange props)) / (snd (yRange props) - fst (yRange props)))
          * (plane_height props - 2 * padding props)"
    using assms(2,4,5) by (intro scaled_offset_strict_mono) simp_all
  then show "mapY props b < mapY props a"
    by (simp add: mapY_def split_beta)
qed

theorem mapX_increasing_mapY_decreasing_witness:
  "mapX \<lparr>plane_width = 800, plane_height = 500, xRange = (0, 10), yRange = (0, 1),
          padding = 40\<rparr> 0
     < mapX \<lparr>plane_width = 800, plane_height = 500, xRange = (0, 10), yRange = (0, 1),
          padding = 40\<rparr> 5
   \<and> mapY \<lparr>plane_width = 800, plane_height = 500, xRange = (0, 10), yRange = (0, 1),
          padding = 40\<rparr> 5
     < mapY \<lparr>plane_width = 800, plane_height = 500, xRange = (0, 10), yRange = (0, 1),
          padding = 40\<rparr> 0"
  using mapX_increasing_mapY_decreasing
    [of "\<lparr>plane_width = 800, plane_height = 500, xRange = (0, 10), yRange = (0, 1),
          padding = 40\<rparr>" 0 5]
  by simp

subsection \<open>The camera\<close>

lemma spec_clamp_ignore_zero:
  "spec_clamp (ignore_zero lo) (ignore_zero hi) v =
     (let v1 = (if truthy lo then max v (the lo) else v)
      in if truthy hi then min v1 (the hi) else v1)"
  by (cases lo; cases hi) (simp_all add: spec_clamp_def ignore_zero_def Let_def)

lemma spec_step1_nonzero_bounds:
  "spec_step1 (nonzero_bounds props) wh =
     (spec_clamp (ignore_zero (minWidth props)) (ignore_zero (maxWidth props)) (fst wh),
      spec_clamp (ignore_zero (minHeight props)) (ignore_zero (maxHeight props)) (snd wh))"
  by (simp add: spec_step1_def nonzero_bounds_def)

lemma spec_postLerp_nonzero_bounds:
  "spec_postLerp (nonzero_bounds props) wh =
     spec_step3 props (spec_step2 props (spec_step1 (nonzero_bounds props) wh))"
  by (simp add: spec_postLerp_def spec_step2_def spec_step3_def nonzero_bounds_def)

lemma Camera2D_state:
  "state (Camera2D interpolate frame props) =
     (let i = interpolated interpolate frame props;
          wh = spec_postLerp (nonzero_bounds props) (width i, height i)
      in \<lparr>centerX = centerX i, centerY = centerY i, width = fst wh, height = snd wh\<rparr>)"
  by (simp add: Camera2D_def interpolated_def spec_postLerp_nonzero_bounds
      spec_step1_nonzero_bounds spec_step2_def spec_step3_def spec_clamp_ignore_zero Let_def)

lemma Camera2D_transform:
  "scale (Camera2D interpolate frame props) =
     sceneWidth props / width (state (Camera2D interpolate frame props))"
  "translateX (Camera2D interpolate frame props) =
     sceneWidth props / 2
       - centerX (state (Camera2D interpolate frame props))
         * scale (Camera2D interpolate frame props)"
  "translateY (Camera2D interpolate frame props) =
     sceneHeight props / 2
       - centerY (state (Camera2D interpolate frame props))
         * scale (Camera2D interpolate frame props)"
  by (simp_all add: Camera2D_def Let_def split_beta)

lemma spec_clamp_positive:
  "not_negative lo \<Longrightarrow> not_negative hi \<Longrightarrow>
     spec_clamp (ignore_zero lo) (ignore_zero hi) v
       = positive_max_bound hi (positive_min_bound lo v)"
  by (cases lo; cases hi) (auto simp: spec_clamp_def ignore_zero_def Let_def)

text \<open>
  C1. For a camera state of positive width, the transform is
  \<open>scale = sceneWidth / width\<close>, \<open>translateX = sceneWidth/2 - centerX * scale\<close>,
  \<open>translateY = sceneHeight/2 - centerY * scale\<close>, and the centre of the viewport, mapped
  through \<open>p * scale + translate\<close>, is the centre of the screen (exactly, so within the
  tolerance \<open>10\<^sup>-\<^sup>6\<close>).
\<close>

theorem transform_maps_center:
  assumes "0 < width (state (Camera2D interpolate frame props))"
  shows "let r = Camera2D interpolate frame props; v = state r
         in scale r = sceneWidth props / width v
          \<and> translateX r = sceneWidth props / 2 - centerX v * scale r
          \<and> translateY r = sceneHeight props / 2 - centerY v * scale r
          \<and> centerX v * scale r + translateX r = sceneWidth props / 2
          \<and> centerY v * scale r + translateY r = sceneHeight props / 2
          \<and> \<bar>centerX v * scale r + translateX r - sceneWidth props / 2\<bar> \<le> 1 / 10 ^ 6
          \<and> \<bar>centerY v * scale r + translateY r - sceneHeight props / 2\<bar> \<le> 1 / 10 ^ 6"
  unfolding Let_def
  by (simp add: Camera2D_transform)

theorem transform_maps_center_witness:
  "0 < width (state (Camera2D at_start 0 example_props))
   \<and> scale (Camera2D at_start 0 example_props) = 1920 / 600
   \<and> translateX (Camera2D at_start 0 example_props) = 640
   \<and> translateY (Camera2D at_start 0 example_props) = 380
   \<and> 100 * scale (Camera2D at_start 0 example_props)
        + translateX (Camera2D at_start 0 example_props) = 960
   \<and> 50 * scale (Camera2D at_start 0 example_props)
        + translateY (Camera2D at_start 0 example_props) = 540"
proof -
  have st: "state (Camera2D at_start 0 example_props)
      = \<lparr>centerX = 100, centerY = 50, width = 600, height = 337.5\<rparr>"
    by (simp add: Camera2D_def example_props_def at_start_def)
  then have pos: "0 < width (state (Camera2D at_start 0 example_props))"
    by simp
  show ?thesis
    using transform_maps_center [OF pos] st
    by (simp add: Let_def example_props_def)
qed

text \<open>
  C3, as the claim states it, fails: a bound that is given as 0 does not clamp. With
  \<open>maxWidth = 0\<close> the interpolated width 1500 is halved to 750; clamped to the bound
  first, as for a bound that is given, it would be 0.
\<close>

theorem post_lerp_zero_bound_counterexample:
  "maxWidth zero_max_props = Some 0
   \<and> width (interpolated at_start 0 zero_max_props) = 1500
   \<and> width (state (Camera2D at_start 0 zero_max_props)) = 750
   \<and> fst (spec_postLerp zero_max_props
        (width (interpolated at_start 0 zero_max_props),
         height (interpolated at_start 0 zero_max_props))) = 0"
  by (simp add: zero_max_props_def example_props_def at_start_def Camera2D_def
      interpolated_def spec_postLerp_def spec_step1_def spec_step2_def spec_step3_def
      spec_clamp_def)

text \<open>
  C3, amended. The adjustments after the interpolation are applied in the order
  (1) clamp width and height to the bounds that are given and are not 0, (2) divide both
  by \<open>zoomMultiplier\<close>, (3) under \<open>maintainAspectRatio\<close> recompute
  \<open>height = width / (sceneWidth / sceneHeight)\<close>; with \<open>maintainAspectRatio\<close>, a scene of
  1920 by 1080 and a final width of 600 the height is 337.5.
\<close>

theorem post_lerp_order:
  "let i = interpolated interpolate frame props;
       v = state (Camera2D interpolate frame props)
   in centerX v = centerX i \<and> centerY v = centerY i
    \<and> (width v, height v) = spec_postLerp (nonzero_bounds props) (width i, height i)
    \<and> (maintainAspectRatio props \<and> sceneWidth props = 1920 \<and> sceneHeight props = 1080
         \<and> width v = 600 \<longrightarrow> height v = 337.5)"
  by (simp add: Camera2D_state Let_def spec_postLerp_nonzero_bounds spec_step3_def)

text \<open>
  At the example the order shows: the interpolated width 1500 is clamped to 1200 and
  then halved; halving first would leave 750 below the bound.
\<close>

theorem post_lerp_order_witness:
  "maintainAspectRatio example_props \<and> sceneWidth example_props = 1920
   \<and> sceneHeight example_props = 1080
   \<and> width (interpolated at_start 0 example_props) = 1500
   \<and> width (state (Camera2D at_start 0 example_props)) = 600
   \<and> height (state (Camera2D at_start 0 example_props)) = 337.5"
proof -
  have hyp: "maintainAspectRatio example_props \<and> sceneWidth example_props = 1920
      \<and> sceneHeight example_props = 1080
      \<and> width (state (Camera2D at_start 0 example_props)) = 600"
    by (simp add: Camera2D_def example_props_def at_start_def)
  have i: "width (interpolated at_start 0 example_props) = 1500"
    by (simp add: interpolated_def example_props_def at_start_def)
  show ?thesis
    using post_lerp_order [of at_start 0 example_props] hyp i
    by (simp add: Let_def)
qed

text \<open>
  C10. In the constraint step a bound of 0 is treated as absent: with \<open>minWidth\<close>,
  \<open>maxWidth\<close>, \<open>minHeight\<close> or \<open>maxHeight\<close> equal to 0 the camera computes what it
  computes without that bound. A strictly positive bound is enforced, a minimum with
  \<open>max\<close> and a maximum with \<open>min\<close>, before the division by \<open>zoomMultiplier\<close>.
\<close>

theorem zero_bound_absent_positive_bound_enforced:
  "Camera2D interpolate frame (props\<lparr>minWidth := Some 0\<rparr>)
     = Camera2D interpolate frame (props\<lparr>minWidth := None\<rparr>)
   \<and> Camera2D interpolate frame (props\<lparr>maxWidth := Some 0\<rparr>)
     = Camera2D interpolate frame (props\<lparr>maxWidth := None\<rparr>)
   \<and> Camera2D interpolate frame (props\<lparr>minHeight := Some 0\<rparr>)
     = Camera2D interpolate frame (props\<lparr>minHeight := None\<rparr>)
   \<and> Camera2D interpolate frame (props\<lparr>maxHeight := Some 0\<rparr>)
     = Camera2D interpolate frame (props\<lparr>maxHeight := None\<rparr>)
   \<and> (not_negative (minWidth props) \<and> not_negative (maxWidth props) \<longrightarrow>
        width (state (Camera2D interpolate frame props))
          = positive_max_bound (maxWidth props)
              (positive_min_bound (minWidth props)
                (width (interpolated interpolate frame props)))
            / zoomMultiplier props)
   \<and> (not_negative (minHeight props) \<and> not_negative (maxHeight props)
        \<and> \<not> maintainAspectRatio props \<longrightarrow>
        height (state (Camera2D interpolate frame props))
          = positive_max_bound (maxHeight props)
              (positive_min_bound (minHeight props)
                (height (interpolated interpolate frame props)))
            / zoomMultiplier props)"
proof -
  have zero:
    "Camera2D interpolate frame (props\<lparr>minWidth := Some 0\<rparr>)
       = Camera2D interpolate frame (props\<lparr>minWidth := None\<rparr>)"
    "Camera2D interpolate frame (props\<lparr>maxWidth := Some 0\<rparr>)
       = Camera2D interpolate frame (props\<lparr>maxWidth := None\<rparr>)"
    "Camera2D interpolate frame (props\<lparr>minHeight := Some 0\<rparr>)
       = Camera2D interpolate frame (props\<lparr>minHeight := None\<rparr>)"
    "Camera2D interpolate frame (props\<lparr>maxHeight := Some 0\<rparr>)
       = Camera2D interpolate frame (props\<lparr>maxHeight := None\<rparr>)"
    by (simp_all add: Camera2D_def Let_def)
  have w: "width (state (Camera2D interpolate frame props))
      = spec_clamp (ignore_zero (minWidth props)) (ignore_zero (maxWidth props))
          (width (interpolated interpolate frame props)) / zoomMultiplier props"
    by (simp add: Camera2D_state Let_def spec_postLerp_nonzero_bounds
        spec_step1_nonzero_bounds spec_step2_def spec_step3_def)
  have h: "\<not> maintainAspectRatio props \<Longrightarrow>
    height (state (Camera2D interpolate frame props))
      = spec_clamp (ignore_zero (minHeight props)) (ignore_zero (maxHeight props))
          (height (interpolated interpolate frame props)) / zoomMultiplier props"
    by (simp add: Camera2D_state Let_def spec_postLerp_nonzero_bounds
        spec_step1_nonzero_bounds spec_step2_def spec_step3_def)
  show ?thesis
    using zero w h by (simp add: spec_clamp_positive)
qed

text \<open>
  At the example with the bounds \<open>minWidth = 1600\<close>, \<open>maxWidth = 0\<close>, \<open>minHeight = 0\<close>,
  \<open>maxHeight = 500\<close> and no aspect lock: the width 1500 is raised to 1600 and not forced
  to 0, the height 700 is lowered to 500, and both are halved.
\<close>

theorem zero_bound_absent_positive_bound_enforced_witness:
  "not_negative (minWidth (bounded_props)) \<and> not_negative (maxWidth (bounded_props))
   \<and> not_negative (minHeight (bounded_props)) \<and> not_negative (maxHeight (bounded_props))
   \<and> \<not> maintainAspectRatio (bounded_props)
   \<and> width (state (Camera2D at_start 0 bounded_props)) = 800
   \<and> height (state (Camera2D at_start 0 bounded_props)) = 250"
proof -
  have hyp: "not_negative (minWidth (bounded_props)) \<and> not_negative (maxWidth (bounded_props))
      \<and> not_negative (minHeight (bounded_props)) \<and> not_negative (maxHeight (bounded_props))
      \<and> \<not> maintainAspectRatio (bounded_props)"
    by (simp add: bounded_props_def example_props_def)
  have i: "interpolated at_start 0 bounded_props
      = \<lparr>centerX = 100, centerY = 50, width = 1500, height = 700\<rparr>"
    by (simp add: interpolated_def bounded_props_def example_props_def at_start_def)
  show ?thesis
    using zero_bound_absent_positive_bound_enforced [of at_start 0 bounded_props] hyp
    by (simp add: i) (simp add: bounded_props_def example_props_def)
qed

subsection \<open>The path sampler and the flow dots\<close>

lemma segments_loop_eq:
  "segments_loop coords (segs, c) = (segs @ segments_from c coords, total_from c coords)"
  by (induction coords "(segs, c)" arbitrary: segs c rule: segments_loop.induct)
     (simp_all add: point_dist_def Let_def)

lemma point_dist_nonneg: "0 \<le> point_dist a b"
  by (simp add: point_dist_def)

lemma point_dist_zero_iff: "point_dist a b = 0 \<longleftrightarrow> a = b"
proof -
  have "point_dist a b = 0 \<longleftrightarrow> px b - px a = 0 \<and> py b - py a = 0"
    unfolding point_dist_def by (simp add: sum_power2_eq_zero_iff)
  then show ?thesis by auto
qed

lemma total_from_ge: "c \<le> total_from c coords"
proof (induction c coords rule: total_from.induct)
  case (1 c a b rest)
  have "c \<le> c + point_dist a b" using point_dist_nonneg [of a b] by simp
  with 1 show ?case by simp
qed simp_all

lemma total_from_eq_last:
  "total_from c (b # rest) = c \<Longrightarrow> last (b # rest) = b"
proof (induction rest arbitrary: b c)
  case Nil
  then show ?case by simp
next
  case (Cons a rest)
  have ge: "c + point_dist b a \<le> total_from (c + point_dist b a) (a # rest)"
    by (rule total_from_ge)
  from Cons.prems have eq: "total_from (c + point_dist b a) (a # rest) = c" by simp
  with ge point_dist_nonneg [of b a] have d0: "point_dist b a = 0" by linarith
  then have "b = a" by (simp add: point_dist_zero_iff)
  moreover from eq d0 have "total_from c (a # rest) = c" by simp
  then have "last (a # rest) = a" by (rule Cons.IH)
  ultimately show ?case by simp
qed

lemma find_end:
  "rest \<noteq> [] \<Longrightarrow>
     \<exists>s. find (in_segment (total_from c (a # rest))) (segments_from c (a # rest)) = Some s
       \<and> total_from c (a # rest) = cumulative s + seg_length s
       \<and> p2 s = last (a # rest)"
proof (induction rest arbitrary: a c)
  case Nil
  then show ?case by simp
next
  case (Cons b rest)
  let ?T = "total_from (c + point_dist a b) (b # rest)"
  let ?s0 = "\<lparr>p1 = a, p2 = b, seg_length = point_dist a b, cumulative = c\<rparr>"
  have ge: "c + point_dist a b \<le> ?T" by (rule total_from_ge)
  show ?case
  proof (cases "?T \<le> c + point_dist a b")
    case True
    with ge have T: "?T = c + point_dist a b" by simp
    then have lastb: "last (b # rest) = b" by (rule total_from_eq_last)
    have "in_segment ?T ?s0" using T point_dist_nonneg [of a b] by (simp add: in_segment_def)
    then have "find (in_segment (total_from c (a # b # rest))) (segments_from c (a # b # rest))
        = Some ?s0"
      by simp
    with T lastb show ?thesis by simp
  next
    case False
    then have notin: "\<not> in_segment ?T ?s0" by (simp add: in_segment_def)
    from False have "rest \<noteq> []" by (cases rest) auto
    from Cons.IH [OF this, of "c + point_dist a b" b] notin show ?thesis by simp
  qed
qed

lemma find_in_set: "find P xs = Some x \<Longrightarrow> x \<in> set xs"
  by (induction xs) (auto split: if_splits)

lemma getPoint_unfold:
  "getPointOnPolyline matchAll parseFloat d t =
    (let coords = parse_coords matchAll parseFloat d in
      if length coords < 2 then Inr \<lparr>px = 0, py = 0\<rparr>
      else case find_or_last (in_segment (t * total_from 0 coords)) (segments_from 0 coords) of
        None \<Rightarrow> Inl TypeError | Some s \<Rightarrow> Inr (point_in s (t * total_from 0 coords)))"
  by (simp add: getPointOnPolyline_def segments_loop_eq Let_def in_segment_def[abs_def] point_in_def
      split: option.splits)

lemma segments_from_nonempty: "2 \<le> length coords \<Longrightarrow> segments_from c coords \<noteq> []"
  by (cases coords; cases "tl coords") auto

lemma find_or_last_nonempty: "segments \<noteq> [] \<Longrightarrow> \<exists>s. find_or_last P segments = Some s"
  by (simp add: find_or_last_def split: option.splits)

lemma getPointOnPolyline_returns:
  "\<exists>p. getPointOnPolyline matchAll parseFloat d t = Inr p"
proof (cases "length (parse_coords matchAll parseFloat d) < 2")
  case True
  then show ?thesis by (simp add: getPoint_unfold)
next
  case False
  then have "segments_from 0 (parse_coords matchAll parseFloat d) \<noteq> []"
    by (intro segments_from_nonempty) simp
  from find_or_last_nonempty [OF this] False show ?thesis
    by (auto simp: getPoint_unfold Let_def split: option.splits)
qed

lemma total_from_coincident:
  "\<forall>p\<in>set rest. p = a \<Longrightarrow> total_from c (a # rest) = c"
  by (induction rest arbitrary: c) (simp_all add: point_dist_zero_iff [THEN iffD2])

lemma two_points: "2 \<le> length coords \<Longrightarrow> \<exists>a b rest. coords = a # b # rest"
  by (cases coords; cases "tl coords") auto

lemma segments_loop_fl64_eq:
  "segments_loop_fl64 coords (segs, c)
     = (segs @ segments_from_fl64 c coords, total_from_fl64 c coords)"
  by (induction coords "(segs, c)" arbitrary: segs c rule: segments_loop_fl64.induct)
     (simp_all add: Let_def)

lemma getPointOnPolyline_fl64_returns:
  "\<exists>p. getPointOnPolyline_fl64 matchAll parseFloat d t = Inr p"
proof (cases "length (parse_coords matchAll parseFloat d) < 2")
  case True
  then show ?thesis by (simp add: getPointOnPolyline_fl64_def)
next
  case False
  then have "2 \<le> length (parse_coords matchAll parseFloat d)" by simp
  from two_points [OF this] obtain a b rest
    where coords: "parse_coords matchAll parseFloat d = a # b # rest" by blast
  have "segments_from_fl64 0 (a # b # rest) \<noteq> []" by (simp add: Let_def)
  from find_or_last_nonempty [OF this] show ?thesis
    by (auto simp: getPointOnPolyline_fl64_def coords segments_loop_fl64_eq Let_def
        simp del: segments_loop_fl64.simps segments_from_fl64.simps split: option.splits)
qed

lemma fl64_dist_nonneg:
  "0 \<le> fl64 (sqrt (fl64 (fl64 u + fl64 v)))" if "0 \<le> u" "0 \<le> v"
  using that by (intro fl64_nonneg real_sqrt_ge_zero add_nonneg_nonneg)

lemma sampler_fl64_start:
  assumes "fl64 (px a) = px a" and "fl64 (py a) = py a"
    and coords: "parse_coords matchAll parseFloat d = a # b # rest"
  shows "getPointOnPolyline_fl64 matchAll parseFloat d 0 = Inr a"
proof -
  define len where "len = fl64 (sqrt (fl64 (fl64 ((fl64 (px b - px a))\<^sup>2)
                                   + fl64 ((fl64 (py b - py a))\<^sup>2))))"
  have len: "0 \<le> len" unfolding len_def by (intro fl64_dist_nonneg) simp_all
  then have test: "0 \<le> fl64 len" by (rule fl64_nonneg)
  have segs: "segments_loop_fl64 (a # b # rest) ([], 0)
      = (\<lparr>p1 = a, p2 = b, seg_length = len, cumulative = 0\<rparr>
           # segments_from_fl64 (fl64 (0 + len)) (b # rest),
         total_from_fl64 0 (a # b # rest))"
    by (simp add: segments_loop_fl64_eq Let_def len_def del: segments_loop_fl64.simps)
  show ?thesis
    using test assms(1,2)
    by (simp add: getPointOnPolyline_fl64_def coords segs find_or_last_def fl64_0
        del: segments_loop_fl64.simps)
qed

lemma grid_diff:
  assumes "u \<in> \<int>" "v \<in> \<int>" "\<bar>u\<bar> \<le> 2 ^ 25" "\<bar>v\<bar> \<le> 2 ^ 25"
  shows "fl64 (v - u) = v - u" and "fl64 ((v - u)\<^sup>2) = (v - u)\<^sup>2"
    and "fl64 \<bar>v - u\<bar> = \<bar>v - u\<bar>" and "\<bar>v - u\<bar> \<le> 2 ^ 26"
proof -
  have d: "v - u \<in> \<int>" using assms(1,2) by simp
  show b: "\<bar>v - u\<bar> \<le> 2 ^ 26" using assms(3,4) by simp
  then show "fl64 (v - u) = v - u" using d by (intro fl64_exact_int) simp_all
  show "fl64 \<bar>v - u\<bar> = \<bar>v - u\<bar>" using d b by (intro fl64_exact_int) simp_all
  have "(v - u)\<^sup>2 = \<bar>v - u\<bar> * \<bar>v - u\<bar>" by (simp add: power2_eq_square)
  also have "\<dots> \<le> 2 ^ 26 * 2 ^ 26" using b by (intro mult_mono) simp_all
  finally have "\<bar>(v - u)\<^sup>2\<bar> < 2 ^ 53" by simp
  then show "fl64 ((v - u)\<^sup>2) = (v - u)\<^sup>2" using d by (intro fl64_exact_int) simp_all
qed

lemma grid_dist:
  assumes "grid_point a" and "grid_point b" and "px a = px b \<or> py a = py b"
  shows "fl64 (sqrt (fl64 (fl64 ((fl64 (px b - px a))\<^sup>2) + fl64 ((fl64 (py b - py a))\<^sup>2))))
           = point_dist a b"
    and "point_dist a b \<in> \<int>" and "point_dist a b \<le> 2 ^ 26"
proof -
  note x = grid_diff [of "px a" "px b"] and y = grid_diff [of "py a" "py b"]
  have gx: "px a \<in> \<int>" "px b \<in> \<int>" "\<bar>px a\<bar> \<le> 2 ^ 25" "\<bar>px b\<bar> \<le> 2 ^ 25"
    and gy: "py a \<in> \<int>" "py b \<in> \<int>" "\<bar>py a\<bar> \<le> 2 ^ 25" "\<bar>py b\<bar> \<le> 2 ^ 25"
    using assms(1,2) by (simp_all add: grid_point_def)
  from assms(3) show "fl64 (sqrt (fl64 (fl64 ((fl64 (px b - px a))\<^sup>2)
      + fl64 ((fl64 (py b - py a))\<^sup>2)))) = point_dist a b"
  proof
    assume e: "px a = px b"
    then show ?thesis
      using y(1-3) [OF gy] by (simp add: point_dist_def fl64_0)
  next
    assume e: "py a = py b"
    then show ?thesis
      using x(1-3) [OF gx] by (simp add: point_dist_def fl64_0)
  qed
  from assms(3) have "point_dist a b = \<bar>py b - py a\<bar> \<or> point_dist a b = \<bar>px b - px a\<bar>"
    by (auto simp: point_dist_def)
  then show "point_dist a b \<in> \<int>" and "point_dist a b \<le> 2 ^ 26"
    using gx gy x(4) [OF gx] y(4) [OF gy] by auto
qed

lemma grid_segments:
  assumes "list_all grid_point coords" and "axis_parallel coords"
    and "c \<in> \<int>" and "0 \<le> c" and "c + 2 ^ 26 * real (length coords) < 2 ^ 53"
  shows "segments_from_fl64 c coords = segments_from c coords
       \<and> total_from_fl64 c coords = total_from c coords
       \<and> list_all grid_segment (segments_from c coords)
       \<and> total_from c coords \<in> \<int> \<and> total_from c coords < 2 ^ 53"
  using assms
proof (induction c coords rule: segments_from.induct)
  case (1 c a b rest)
  have ga: "grid_point a" and gb: "grid_point b" and ax: "px a = px b \<or> py a = py b"
    using "1.prems"(1,2) by simp_all
  note d = grid_dist [OF ga gb ax]
  have d0: "0 \<le> point_dist a b" by (rule point_dist_nonneg)
  have cd: "c + point_dist a b \<in> \<int>" using "1.prems"(3) d(2) by simp
  have cd0: "0 \<le> c + point_dist a b" using "1.prems"(4) d0 by simp
  have bound: "c + point_dist a b + 2 ^ 26 * real (length (b # rest)) < 2 ^ 53"
    using "1.prems"(5) d(3) by simp
  then have cd53: "\<bar>c + point_dist a b\<bar> < 2 ^ 53" using cd0 by simp
  have fl: "fl64 (c + point_dist a b) = c + point_dist a b"
    using cd cd53 by (rule fl64_exact_int)
  have rest: "list_all grid_point (b # rest)" "axis_parallel (b # rest)"
    using "1.prems"(1,2) by simp_all
  from "1.IH" [OF rest cd cd0 bound]
  have IH: "segments_from_fl64 (c + point_dist a b) (b # rest)
        = segments_from (c + point_dist a b) (b # rest)"
      "total_from_fl64 (c + point_dist a b) (b # rest)
        = total_from (c + point_dist a b) (b # rest)"
      "list_all grid_segment (segments_from (c + point_dist a b) (b # rest))"
      "total_from (c + point_dist a b) (b # rest) \<in> \<int>"
      "total_from (c + point_dist a b) (b # rest) < 2 ^ 53"
    by simp_all
  have s0: "grid_segment \<lparr>p1 = a, p2 = b, seg_length = point_dist a b, cumulative = c\<rparr>"
    using "1.prems"(3,4) d(2) d0 cd53 cd0 ga gb by (simp add: grid_segment_def)
  show ?case
    using IH s0 by (simp add: Let_def d(1) fl)
qed simp_all

lemma sampler_fl64_end:
  assumes coords: "parse_coords matchAll parseFloat d = a # b # rest"
    and grid: "list_all grid_point (a # b # rest)"
    and axis: "axis_parallel (a # b # rest)"
    and len: "length (a # b # rest) < 2 ^ 27"
  shows "getPointOnPolyline_fl64 matchAll parseFloat d 1 = Inr (last (a # b # rest))"
proof -
  define L where "L = total_from 0 (a # b # rest)"
  define segs where "segs = segments_from 0 (a # b # rest)"
  have "real (length (a # b # rest)) < 2 ^ 27"
    using len by (metis of_nat_less_iff of_nat_numeral of_nat_power)
  then have bound: "0 + 2 ^ 26 * real (length (a # b # rest)) < 2 ^ 53" by simp
  from grid_segments [OF grid axis _ _ bound]
  have eq: "segments_from_fl64 0 (a # b # rest) = segs" "total_from_fl64 0 (a # b # rest) = L"
    and gs: "list_all grid_segment segs" and L: "L \<in> \<int>" "L < 2 ^ 53"
    unfolding L_def segs_def by simp_all
  have L0: "0 \<le> L" unfolding L_def by (rule total_from_ge)
  have loop: "segments_loop_fl64 (a # b # rest) ([], 0) = (segs, L)"
    by (simp only: segments_loop_fl64_eq eq append_Nil)
  have flL: "fl64 L = L"
    using L L0 by (intro fl64_exact_int) simp_all
  have gseg: "grid_segment s" if "s \<in> set segs" for s
    using gs that by (auto simp: list_all_iff)
  have sum: "fl64 (cumulative s + seg_length s) = cumulative s + seg_length s"
    if "s \<in> set segs" for s
  proof -
    from gseg [OF that] have "cumulative s \<in> \<int>" "seg_length s \<in> \<int>"
      "0 \<le> cumulative s" "0 \<le> seg_length s" "cumulative s + seg_length s < 2 ^ 53"
      unfolding grid_segment_def by blast+
    then show ?thesis by (intro fl64_exact_int) simp_all
  qed
  have test: "find (\<lambda>s. cumulative s \<le> L \<and> L \<le> fl64 (cumulative s + seg_length s)) segs
      = find (in_segment L) segs"
    by (rule find_cong [OF refl]) (simp add: sum in_segment_def)
  from find_end [of "b # rest" 0 a] obtain s
    where found: "find (in_segment L) segs = Some s"
      and Ls: "L = cumulative s + seg_length s" and last: "p2 s = last (a # b # rest)"
    unfolding L_def segs_def by blast
  from found have "s \<in> set segs" by (rule find_in_set)
  then have g: "grid_segment s" by (rule gseg)
  then have gl: "cumulative s \<in> \<int>" "seg_length s \<in> \<int>"
      "0 \<le> cumulative s" "0 \<le> seg_length s" "cumulative s + seg_length s < 2 ^ 53"
    unfolding grid_segment_def by blast+
  then have lens: "fl64 (seg_length s) = seg_length s"
    by (intro fl64_exact_int) simp_all
  from Ls have off: "fl64 (L - cumulative s) = seg_length s"
    using lens by simp
  from g have gp: "grid_point (p1 s)" "grid_point (p2 s)"
    and d: "seg_length s = point_dist (p1 s) (p2 s)"
    unfolding grid_segment_def by blast+
  have fx: "fl64 (px (p1 s)) = px (p1 s)" "fl64 (py (p1 s)) = py (p1 s)"
    "fl64 (px (p2 s)) = px (p2 s)" "fl64 (py (p2 s)) = py (p2 s)"
    using gp by (auto simp: grid_point_def intro!: fl64_exact_int)
  have dx: "fl64 (px (p2 s) - px (p1 s)) = px (p2 s) - px (p1 s)"
    "fl64 (py (p2 s) - py (p1 s)) = py (p2 s) - py (p1 s)"
    using gp grid_diff(1) by (simp_all add: grid_point_def)
  have point: "(let segmentOffset = fl64 (L - cumulative s);
          segmentT = (if seg_length s = 0 then 0 else fl64 (segmentOffset / seg_length s));
          x = fl64 (px (p1 s) + fl64 (fl64 (px (p2 s) - px (p1 s)) * segmentT));
          y = fl64 (py (p1 s) + fl64 (fl64 (py (p2 s) - py (p1 s)) * segmentT))
      in \<lparr>px = x, py = y\<rparr>) = p2 s"
  proof (cases "seg_length s = 0")
    case True
    with d have "p1 s = p2 s" by (simp add: point_dist_zero_iff)
    with True show ?thesis by (simp add: Let_def off fl64_0 fx)
  next
    case False
    then show ?thesis by (simp add: Let_def off fl64_1 dx fx)
  qed
  have "getPointOnPolyline_fl64 matchAll parseFloat d 1 = Inr (p2 s)"
    unfolding getPointOnPolyline_fl64_def coords Let_def loop
    using point by (cases "seg_length s = 0") (simp_all add: flL test found find_or_last_def Let_def)
  with last show ?thesis by simp
qed

lemma fl64_m1: "fl64 (- 1) = - 1"
  by (subst fl64_binade [where e = 0]) (simp_all add: round_even_def power_int_minus)

lemma fl64_2: "fl64 2 = 2"
  by (subst fl64_binade [where e = 1]) (simp_all add: round_even_def power_int_minus)

lemma fl64_sqrt2: "fl64 (sqrt 2) = sqrt2_fl64"
proof -
  have lo: "(6369051672525773 - 1 / 2) / 2 ^ 52 < sqrt 2"
    by (rule real_less_rsqrt) (simp add: power2_eq_square)
  have hi: "sqrt 2 < (6369051672525773 + 1 / 2) / 2 ^ 52"
    by (rule real_less_lsqrt) (simp_all add: power2_eq_square)
  have one: "1 \<le> sqrt 2" by simp
  have two: "sqrt 2 < 2"
    by (rule real_less_lsqrt) simp_all
  have "round_even (sqrt 2 / 2 powi (0 - 52)) = 6369051672525773"
  proof (rule round_even_near)
    show "of_int 6369051672525773 - 1 / 2 < sqrt 2 / 2 powi (0 - 52)"
      using lo by (simp add: power_int_minus field_simps)
    show "sqrt 2 / 2 powi (0 - 52) < of_int 6369051672525773 + 1 / 2"
      using hi by (simp add: power_int_minus field_simps)
  qed
  moreover have "fl64 (sqrt 2) = of_int (round_even (sqrt 2 / 2 powi (0 - 52))) * 2 powi (0 - 52)"
    using one two by (intro fl64_binade) simp_all
  ultimately show ?thesis
    by (simp add: sqrt2_fl64_def power_int_minus)
qed

lemma fl64_total: "fl64 (1 + sqrt2_fl64) = 5436325649948134 / 2 ^ 51"
  unfolding sqrt2_fl64_def
  by (subst fl64_binade [where e = 1]) (simp_all add: round_even_def power_int_minus)

lemma fl64_segment_t:
  "fl64 ((5436325649948134 / 2 ^ 51 - 1) / sqrt2_fl64) = 1 - 1 / 2 ^ 53"
  unfolding sqrt2_fl64_def
  by (subst fl64_binade [where e = "- 1"]) (simp_all add: round_even_def power_int_minus)

text \<open>
  C4, as the claim states it, fails at \<open>t = 1\<close>. On the path through (0, 0), (0, 1) and
  (1, 0) the total length is rounded down, the offset in the last segment falls short
  of its length, and the sampler returns (0.9999999999999999, 1.1102230246251565e-16),
  not (1, 0).
\<close>

theorem sampler_misses_last_point:
  "parse_coords triangle_matchAll triangle_parseFloat ''M 0,0 L 0,1 L 1,0''
     = [\<lparr>px = 0, py = 0\<rparr>, \<lparr>px = 0, py = 1\<rparr>, \<lparr>px = 1, py = 0\<rparr>]
   \<and> getPointOnPolyline_fl64 triangle_matchAll triangle_parseFloat ''M 0,0 L 0,1 L 1,0'' 0
     = Inr \<lparr>px = 0, py = 0\<rparr>
   \<and> getPointOnPolyline_fl64 triangle_matchAll triangle_parseFloat ''M 0,0 L 0,1 L 1,0'' 1
     = Inr \<lparr>px = 1 - 1 / 2 ^ 53, py = 1 / 2 ^ 53\<rparr>
   \<and> getPointOnPolyline_fl64 triangle_matchAll triangle_parseFloat ''M 0,0 L 0,1 L 1,0'' 1
     \<noteq> Inr (last (parse_coords triangle_matchAll triangle_parseFloat ''M 0,0 L 0,1 L 1,0''))"
proof -
  define T :: real where "T = 5436325649948134 / 2 ^ 51"
  define U :: real where "U = 1 - 1 / 2 ^ 53"
  have coords: "parse_coords triangle_matchAll triangle_parseFloat ''M 0,0 L 0,1 L 1,0''
      = [\<lparr>px = 0, py = 0\<rparr>, \<lparr>px = 0, py = 1\<rparr>, \<lparr>px = 1, py = 0\<rparr>]"
    by (simp add: parse_coords_def triangle_matchAll_def triangle_parseFloat_def)
  have total: "fl64 (1 + sqrt2_fl64) = T"
    by (simp add: fl64_total T_def)
  have segs: "segments_loop_fl64
      [\<lparr>px = 0, py = 0\<rparr>, \<lparr>px = 0, py = 1\<rparr>, \<lparr>px = 1, py = 0\<rparr>] ([], 0)
      = ([\<lparr>p1 = \<lparr>px = 0, py = 0\<rparr>, p2 = \<lparr>px = 0, py = 1\<rparr>, seg_length = 1, cumulative = 0\<rparr>,
          \<lparr>p1 = \<lparr>px = 0, py = 1\<rparr>, p2 = \<lparr>px = 1, py = 0\<rparr>, seg_length = sqrt2_fl64,
            cumulative = 1\<rparr>], T)"
    by (simp add: fl64_0 fl64_1 fl64_m1 fl64_2 fl64_sqrt2 total)
  have T_fl: "fl64 T = T"
    unfolding T_def
    by (subst fl64_binade [where e = 1]) (simp_all add: round_even_def power_int_minus)
  have T_gt: "\<not> T \<le> 1" "1 \<le> T" "0 \<le> T" by (simp_all add: T_def)
  have off: "fl64 (T - 1) = T - 1"
    unfolding T_def
    by (subst fl64_binade [where e = 0]) (simp_all add: round_even_def power_int_minus)
  have s2: "sqrt2_fl64 \<noteq> 0" by (simp add: sqrt2_fl64_def)
  have segT: "fl64 ((T - 1) / sqrt2_fl64) = U"
    using fl64_segment_t by (simp add: T_def U_def)
  have U_fl: "fl64 U = U"
    unfolding U_def
    by (subst fl64_binade [where e = "- 1"]) (simp_all add: round_even_def power_int_minus)
  have U_neg: "fl64 (- U) = - U"
    unfolding U_def
    by (subst fl64_binade [where e = "- 1"]) (simp_all add: round_even_def power_int_minus)
  have y: "fl64 (1 - U) = 1 / 2 ^ 53"
    unfolding U_def
    by (subst fl64_binade [where e = "- 53"]) (simp_all add: round_even_def power_int_minus)
  have start: "getPointOnPolyline_fl64 triangle_matchAll triangle_parseFloat
      ''M 0,0 L 0,1 L 1,0'' 0 = Inr \<lparr>px = 0, py = 0\<rparr>"
    by (simp add: getPointOnPolyline_fl64_def coords segs find_or_last_def fl64_0 fl64_1
        del: segments_loop_fl64.simps)
  have finish: "getPointOnPolyline_fl64 triangle_matchAll triangle_parseFloat
      ''M 0,0 L 0,1 L 1,0'' 1 = Inr \<lparr>px = U, py = 1 / 2 ^ 53\<rparr>"
    by (simp add: getPointOnPolyline_fl64_def coords segs find_or_last_def fl64_0 fl64_1
        fl64_m1 T_fl T_gt total off s2 segT U_fl U_neg y del: segments_loop_fl64.simps)
  have differs: "Inr \<lparr>px = U, py = 1 / 2 ^ 53\<rparr> \<noteq> (Inr \<lparr>px = 1, py = 0\<rparr> :: error + point)"
    by simp
  from coords start finish differs show ?thesis
    by (simp only: U_def last.simps list.simps if_True if_False simp_thms)
qed

text \<open>
  C4, amended. On a path of at least two points the sampler returns the first point at
  \<open>t = 0\<close>, its coordinates being doubles. At \<open>t = 1\<close> it returns the last point when the
  segments are parallel to an axis and the coordinates are integers of magnitude at most
  \<open>2\<^sup>2\<^sup>5\<close>, on fewer than \<open>2\<^sup>2\<^sup>7\<close> points: there no operation rounds. That is the shape of
  the paths the program draws its pipes on.
\<close>

theorem sampler_endpoints:
  assumes "2 \<le> length (parse_coords matchAll parseFloat d)"
  shows "(fl64 (px (hd (parse_coords matchAll parseFloat d)))
            = px (hd (parse_coords matchAll parseFloat d))
          \<and> fl64 (py (hd (parse_coords matchAll parseFloat d)))
            = py (hd (parse_coords matchAll parseFloat d)) \<longrightarrow>
          getPointOnPolyline_fl64 matchAll parseFloat d 0
            = Inr (hd (parse_coords matchAll parseFloat d)))
       \<and> (list_all grid_point (parse_coords matchAll parseFloat d)
          \<and> axis_parallel (parse_coords matchAll parseFloat d)
          \<and> length (parse_coords matchAll parseFloat d) < 2 ^ 27 \<longrightarrow>
          getPointOnPolyline_fl64 matchAll parseFloat d 1
            = Inr (last (parse_coords matchAll parseFloat d)))"
proof -
  from two_points [OF assms] obtain a b rest
    where coords: "parse_coords matchAll parseFloat d = a # b # rest" by blast
  show ?thesis
  proof (intro conjI impI)
    assume "fl64 (px (hd (parse_coords matchAll parseFloat d)))
            = px (hd (parse_coords matchAll parseFloat d))
          \<and> fl64 (py (hd (parse_coords matchAll parseFloat d)))
            = py (hd (parse_coords matchAll parseFloat d))"
    then have "fl64 (px a) = px a" and "fl64 (py a) = py a"
      by (simp_all add: coords)
    then have "getPointOnPolyline_fl64 matchAll parseFloat d 0 = Inr a"
      using coords by (rule sampler_fl64_start)
    then show "getPointOnPolyline_fl64 matchAll parseFloat d 0
        = Inr (hd (parse_coords matchAll parseFloat d))"
      by (simp add: coords)
  next
    assume "list_all grid_point (parse_coords matchAll parseFloat d)
          \<and> axis_parallel (parse_coords matchAll parseFloat d)
          \<and> length (parse_coords matchAll parseFloat d) < 2 ^ 27"
    then have "list_all grid_point (a # b # rest)" and "axis_parallel (a # b # rest)"
      and "length (a # b # rest) < 2 ^ 27"
      by (simp_all only: coords)
    with coords have "getPointOnPolyline_fl64 matchAll parseFloat d 1
        = Inr (last (a # b # rest))"
      by (rule sampler_fl64_end)
    then show "getPointOnPolyline_fl64 matchAll parseFloat d 1
        = Inr (last (parse_coords matchAll parseFloat d))"
      by (simp only: coords)
  qed
qed

theorem sampler_endpoints_witness:
  "2 \<le> length (parse_coords pipe_matchAll pipe_parseFloat ''M 520,905 L 520,774 L 320,774'')
   \<and> getPointOnPolyline_fl64 pipe_matchAll pipe_parseFloat ''M 520,905 L 520,774 L 320,774'' 0
       = Inr \<lparr>px = 520, py = 905\<rparr>
   \<and> getPointOnPolyline_fl64 pipe_matchAll pipe_parseFloat ''M 520,905 L 520,774 L 320,774'' 1
       = Inr \<lparr>px = 320, py = 774\<rparr>"
proof -
  have coords: "parse_coords pipe_matchAll pipe_parseFloat ''M 520,905 L 520,774 L 320,774''
      = [\<lparr>px = 520, py = 905\<rparr>, \<lparr>px = 520, py = 774\<rparr>, \<lparr>px = 320, py = 774\<rparr>]"
    by (simp add: parse_coords_def pipe_matchAll_def pipe_parseFloat_def)
  then have len: "2 \<le> length (parse_coords pipe_matchAll pipe_parseFloat
      ''M 520,905 L 520,774 L 320,774'')"
    by simp
  have doubles: "fl64 520 = 520" "fl64 905 = 905"
    by (rule fl64_exact_int; simp)+
  have grid: "list_all grid_point
      [\<lparr>px = 520, py = 905\<rparr>, \<lparr>px = 520, py = 774\<rparr>, \<lparr>px = 320, py = 774\<rparr>]"
    by (simp add: grid_point_def)
  show ?thesis
    using sampler_endpoints [OF len] len doubles grid by (simp add: coords)
qed

text \<open>
  C8. The sampler never throws, whatever the path string and \<open>t\<close>: it returns a point.
  With fewer than two parsed points it returns \<open>(0, 0)\<close>; on a path of total length 0
  it returns the first point for every \<open>t\<close>, and the total length is 0 when all points
  coincide.
\<close>

theorem sampler_never_throws:
  "(\<exists>p. getPointOnPolyline matchAll parseFloat d t = Inr p)
   \<and> (length (parse_coords matchAll parseFloat d) < 2 \<longrightarrow>
        getPointOnPolyline matchAll parseFloat d t = Inr \<lparr>px = 0, py = 0\<rparr>)
   \<and> (2 \<le> length (parse_coords matchAll parseFloat d)
        \<and> snd (segments_loop (parse_coords matchAll parseFloat d) ([], 0)) = 0 \<longrightarrow>
        getPointOnPolyline matchAll parseFloat d t
          = Inr (hd (parse_coords matchAll parseFloat d)))
   \<and> (2 \<le> length (parse_coords matchAll parseFloat d)
        \<and> (\<forall>p\<in>set (parse_coords matchAll parseFloat d).
              p = hd (parse_coords matchAll parseFloat d)) \<longrightarrow>
        snd (segments_loop (parse_coords matchAll parseFloat d) ([], 0)) = 0)"
proof (intro conjI impI)
  show "\<exists>p. getPointOnPolyline matchAll parseFloat d t = Inr p"
    by (rule getPointOnPolyline_returns)
next
  assume "length (parse_coords matchAll parseFloat d) < 2"
  then show "getPointOnPolyline matchAll parseFloat d t = Inr \<lparr>px = 0, py = 0\<rparr>"
    by (simp add: getPoint_unfold)
next
  assume h: "2 \<le> length (parse_coords matchAll parseFloat d)
        \<and> snd (segments_loop (parse_coords matchAll parseFloat d) ([], 0)) = 0"
  from two_points h obtain a b rest
    where coords: "parse_coords matchAll parseFloat d = a # b # rest" by blast
  from h have "total_from 0 (parse_coords matchAll parseFloat d) = 0"
    by (simp add: segments_loop_eq)
  then have T: "total_from 0 (a # b # rest) = 0" by (simp only: coords)
  have "find_or_last (in_segment 0) (segments_from 0 (a # b # rest))
      = Some \<lparr>p1 = a, p2 = b, seg_length = point_dist a b, cumulative = 0\<rparr>"
    by (simp add: find_or_last_def in_segment_def point_dist_nonneg)
  moreover have "point_in \<lparr>p1 = a, p2 = b, seg_length = point_dist a b, cumulative = 0\<rparr> 0 = a"
    by (simp add: point_in_def)
  ultimately show "getPointOnPolyline matchAll parseFloat d t
          = Inr (hd (parse_coords matchAll parseFloat d))"
    by (simp add: getPoint_unfold coords T del: segments_from.simps total_from.simps)
next
  assume h: "2 \<le> length (parse_coords matchAll parseFloat d)
        \<and> (\<forall>p\<in>set (parse_coords matchAll parseFloat d).
              p = hd (parse_coords matchAll parseFloat d))"
  from two_points h obtain a b rest
    where coords: "parse_coords matchAll parseFloat d = a # b # rest" by blast
  with h have "\<forall>p\<in>set (b # rest). p = a" by simp
  then have "total_from 0 (a # b # rest) = 0" by (rule total_from_coincident)
  then show "snd (segments_loop (parse_coords matchAll parseFloat d) ([], 0)) = 0"
    by (simp add: segments_loop_eq coords)
qed

theorem sampler_never_throws_witness:
  "length (parse_coords example_matchAll example_parseFloat ''M 3,4'') < 2
   \<and> getPointOnPolyline example_matchAll example_parseFloat ''M 3,4'' 0.7
       = Inr \<lparr>px = 0, py = 0\<rparr>
   \<and> 2 \<le> length (parse_coords example_matchAll example_parseFloat ''M 3,4 L 3,4'')
   \<and> set (parse_coords example_matchAll example_parseFloat ''M 3,4 L 3,4'')
       = {hd (parse_coords example_matchAll example_parseFloat ''M 3,4 L 3,4'')}
   \<and> snd (segments_loop (parse_coords example_matchAll example_parseFloat ''M 3,4 L 3,4'')
         ([], 0)) = 0
   \<and> getPointOnPolyline example_matchAll example_parseFloat ''M 3,4 L 3,4'' 0.7
       = Inr \<lparr>px = 3, py = 4\<rparr>"
proof -
  have one: "parse_coords example_matchAll example_parseFloat ''M 3,4'' = [\<lparr>px = 3, py = 4\<rparr>]"
    by (simp add: parse_coords_def example_matchAll_def example_parseFloat_def)
  have two: "parse_coords example_matchAll example_parseFloat ''M 3,4 L 3,4''
      = [\<lparr>px = 3, py = 4\<rparr>, \<lparr>px = 3, py = 4\<rparr>]"
    by (simp add: parse_coords_def example_matchAll_def example_parseFloat_def)
  have short: "getPointOnPolyline example_matchAll example_parseFloat ''M 3,4'' 0.7
      = Inr \<lparr>px = 0, py = 0\<rparr>"
    using sampler_never_throws [of example_matchAll example_parseFloat "''M 3,4''" "0.7"]
    by (simp add: one)
  have total: "snd (segments_loop (parse_coords example_matchAll example_parseFloat
      ''M 3,4 L 3,4'') ([], 0)) = 0"
    using sampler_never_throws [of example_matchAll example_parseFloat "''M 3,4 L 3,4''" "0.7"]
    by (simp add: two)
  have coincident: "getPointOnPolyline example_matchAll example_parseFloat ''M 3,4 L 3,4'' 0.7
      = Inr \<lparr>px = 3, py = 4\<rparr>"
    using sampler_never_throws [of example_matchAll example_parseFloat "''M 3,4 L 3,4''" "0.7"]
      total
    by (simp add: two)
  show ?thesis
    using short total coincident by (simp add: one two)
qed

lemma renderDots_loop_step:
  assumes "i < numDots"
  shows "\<exists>c. renderDots_loop matchAll parseFloat props frame path speed numDots i dots
           = renderDots_loop matchAll parseFloat props frame path speed numDots (Suc i)
               (dots @ [c])"
  using assms
    getPointOnPolyline_returns
      [of matchAll parseFloat path "js_mod1 (frame * speed + real i / real numDots)"]
    getPointOnPolyline_returns
      [of matchAll parseFloat path "js_mod1 (frame * speed + real i / real numDots) + 1"]
  by (subst renderDots_loop.simps) (auto simp: Let_def)

lemma renderDots_loop_length:
  "\<exists>ds. renderDots_loop matchAll parseFloat props frame path speed numDots i dots = Inr ds
        \<and> length ds = length dots + (numDots - i)"
proof (induction "numDots - i" arbitrary: i dots)
  case 0
  then show ?case by (simp add: renderDots_loop.simps)
next
  case (Suc n)
  then have lt: "i < numDots" and n: "n = numDots - Suc i" by simp_all
  from renderDots_loop_step [OF lt] obtain c where
    step: "renderDots_loop matchAll parseFloat props frame path speed numDots i dots
           = renderDots_loop matchAll parseFloat props frame path speed numDots (Suc i)
               (dots @ [c])"
    by blast
  from Suc.hyps(1) [OF n, of "dots @ [c]"] lt show ?case
    by (auto simp: step)
qed

text \<open>
  C9. For every frame and path, a flow with \<open>\<bar>flow\<bar> < 0.01\<close> gives no markers at all
  (\<open>renderDots\<close> returns \<open>null\<close>), and a flow with \<open>\<bar>flow\<bar> \<ge> 0.01\<close> gives the
  \<open>numDots = 8\<close> markers.
\<close>

theorem dots_suppressed_or_numDots:
  "(\<bar>flow\<bar> < 0.01 \<longrightarrow> renderDots matchAll parseFloat props frame path flow = Inr None)
   \<and> (\<bar>flow\<bar> \<ge> 0.01 \<longrightarrow>
        (\<exists>dots. renderDots matchAll parseFloat props frame path flow = Inr (Some dots)
              \<and> length dots = 8))"
proof (intro conjI impI)
  assume "\<bar>flow\<bar> < 0.01"
  then show "renderDots matchAll parseFloat props frame path flow = Inr None"
    by (simp add: renderDots_def)
next
  assume ge: "\<bar>flow\<bar> \<ge> 0.01"
  from renderDots_loop_length [of matchAll parseFloat props frame path
      "max (- 1) (min 1 (flow / maxFlow props)) * 0.01" 8 0 "[]"]
  obtain ds where "renderDots_loop matchAll parseFloat props frame path
      (max (- 1) (min 1 (flow / maxFlow props)) * 0.01) 8 0 [] = Inr ds" and "length ds = 8"
    by auto
  with ge show "\<exists>dots. renderDots matchAll parseFloat props frame path flow = Inr (Some dots)
              \<and> length dots = 8"
    by (simp add: renderDots_def Let_def)
qed

theorem dots_suppressed_or_numDots_witness:
  "\<bar>0.001 :: real\<bar> < 0.01
   \<and> renderDots example_matchAll example_parseFloat
         \<lparr>maxFlow = 100, dotSize = 6, dotColor = ''white''\<rparr> 30 ''M 0,0 L 10,0 L 10,5'' 0.001
       = Inr None
   \<and> \<bar>- 50 :: real\<bar> \<ge> 0.01
   \<and> (\<exists>dots. renderDots example_matchAll example_parseFloat
         \<lparr>maxFlow = 100, dotSize = 6, dotColor = ''white''\<rparr> 30 ''M 0,0 L 10,0 L 10,5'' (- 50)
           = Inr (Some dots) \<and> length dots = 8)"
  using dots_suppressed_or_numDots [of "0.001" example_matchAll example_parseFloat
      "\<lparr>maxFlow = 100, dotSize = 6, dotColor = ''white''\<rparr>" 30 "''M 0,0 L 10,0 L 10,5''"]
    dots_suppressed_or_numDots [of "- 50" example_matchAll example_parseFloat
      "\<lparr>maxFlow = 100, dotSize = 6, dotColor = ''white''\<rparr>" 30 "''M 0,0 L 10,0 L 10,5''"]
  by simp

subsection \<open>Tick generation\<close>

lemma tick_iter_Suc: "tick_iter v step (Suc n) = fl64 (tick_iter v step n + step)"
  by (induction n arbitrary: v) simp_all

lemma map_tick_iter_Suc:
  "map (tick_iter v step) [0..<Suc n] = v # map (tick_iter (fl64 (v + step)) step) [0..<n]"
proof -
  have "map (tick_iter v step) [0..<Suc n]
      = tick_iter v step 0 # map (tick_iter v step \<circ> Suc) [0..<n]"
    by (simp only: upt_conv_Cons [of 0 "Suc n"] map_Suc_upt [symmetric] list.map map_map
        zero_less_Suc)
  then show ?thesis by (simp add: comp_def)
qed

lemma getTicks_loop_unroll:
  assumes "\<forall>i<n. tick_iter v step i \<le> fl64 (maxv + fl64 (1 / 10 ^ 9))"
    and "\<not> tick_iter v step n \<le> fl64 (maxv + fl64 (1 / 10 ^ 9))"
  shows "getTicks_loop v maxv step ticks = Some (ticks @ map (tick_iter v step) [0..<n])"
  using assms
proof (induction n arbitrary: v ticks)
  case 0
  then show ?case
    by (subst getTicks_loop.simps) simp
next
  case (Suc n)
  from Suc.prems(1) have v: "v \<le> fl64 (maxv + fl64 (1 / 10 ^ 9))" by force
  have a: "\<forall>i<n. tick_iter (fl64 (v + step)) step i \<le> fl64 (maxv + fl64 (1 / 10 ^ 9))"
  proof (intro allI impI)
    fix i assume "i < n"
    then have "Suc i < Suc n" by simp
    with Suc.prems(1) have "tick_iter v step (Suc i) \<le> fl64 (maxv + fl64 (1 / 10 ^ 9))"
      by blast
    then show "tick_iter (fl64 (v + step)) step i \<le> fl64 (maxv + fl64 (1 / 10 ^ 9))" by simp
  qed
  have b: "\<not> tick_iter (fl64 (v + step)) step n \<le> fl64 (maxv + fl64 (1 / 10 ^ 9))"
    using Suc.prems(2) by simp
  from Suc.IH [OF a b, of "ticks @ [v]"] v show ?case
    by (subst getTicks_loop.simps) (simp add: map_tick_iter_Suc del: upt_Suc)
qed

lemma fl64_1e9: "fl64 (1 / 10 ^ 9) = 4835703278458517 / 2 ^ 82"
  by (subst fl64_binade [where e = "- 30"]) (simp_all add: round_even_def power_int_minus)

lemma fl64_0_05: "fl64 (1 / 20) = 3602879701896397 / 2 ^ 56"
  by (subst fl64_binade [where e = "- 5"]) (simp_all add: round_even_def power_int_minus)

lemma bound_1000002: "fl64 (1000002 + fl64 (1 / 10 ^ 9)) = 1000002 + 9 / 2 ^ 33"
  unfolding fl64_1e9
  by (subst fl64_binade [where e = 19]) (simp_all add: round_even_def power_int_minus)

lemma start_1000000:
  "fl64 (of_int \<lceil>fl64 (1000000 / fl64 (1 / 20))\<rceil> * fl64 (1 / 20)) = 1000000"
proof -
  have "fl64 (1000000 / fl64 (1 / 20)) = 20000000"
    unfolding fl64_0_05
    by (subst fl64_binade [where e = 24]) (simp_all add: round_even_def power_int_minus)
  then show ?thesis
    unfolding fl64_0_05
    by (simp, subst fl64_binade [where e = 19]) (simp_all add: round_even_def power_int_minus)
qed

lemma step_drift:
  assumes "k \<le> 40"
  shows "fl64 (1000000 + real k * (429496730 / 2 ^ 33) + fl64 (1 / 20))
           = 1000000 + real (Suc k) * (429496730 / 2 ^ 33)"
proof -
  let ?N = "1000000 * 2 ^ 33 + int k * 429496730 + 429496730"
  let ?x = "1000000 + real k * (429496730 / 2 ^ 33) + 3602879701896397 / 2 ^ 56 :: real"
  have k: "real k \<le> 40" "0 \<le> real k" using assms by simp_all
  have lo: "2 powi 19 \<le> \<bar>?x\<bar>" using k by simp
  have "real k * (429496730 / 2 ^ 33) \<le> 40 * (429496730 / 2 ^ 33)"
    using k by (intro mult_right_mono) simp_all
  then have hi: "\<bar>?x\<bar> < 2 powi (19 + 1)" using k by simp
  have x: "?x / 2 powi (19 - 52) = of_int (1000000 * 2 ^ 33 + int k * 429496730) + 3602879701896397 / 2 ^ 23"
    by (simp add: power_int_minus field_simps)
  have "round_even (?x / 2 powi (19 - 52)) = ?N"
    unfolding x by (rule round_even_near) simp_all
  then have "fl64 ?x = of_int ?N * 2 powi (19 - 52)"
    using fl64_binade [OF lo hi] by simp
  also have "\<dots> = 1000000 + real (Suc k) * (429496730 / 2 ^ 33)"
    by (simp add: power_int_minus field_simps)
  finally show ?thesis by (simp add: fl64_0_05)
qed

lemma tick_iter_1000000:
  "k \<le> 40 \<Longrightarrow> tick_iter 1000000 (fl64 (1 / 20)) k = 1000000 + real k * (429496730 / 2 ^ 33)"
proof (induction k)
  case 0
  then show ?case by simp
next
  case (Suc k)
  then have "k \<le> 40" by simp
  with Suc.IH step_drift [of k] show ?case
    by (simp only: tick_iter_Suc)
qed

lemma getTicks_overshoot:
  "getTicks 1000000 1000002 (fl64 (1 / 20))
     = Some (map (\<lambda>i. 1000000 + real i * (429496730 / 2 ^ 33)) [0..<40])"
proof -
  have below: "\<forall>i<40. tick_iter 1000000 (fl64 (1 / 20)) i
      \<le> fl64 (1000002 + fl64 (1 / 10 ^ 9))"
  proof (intro allI impI)
    fix i :: nat assume i: "i < 40"
    then have ti: "tick_iter 1000000 (fl64 (1 / 20)) i
        = 1000000 + real i * (429496730 / 2 ^ 33)"
      by (intro tick_iter_1000000) simp
    from i have "real i \<le> 39" by simp
    then have "real i * (429496730 / 2 ^ 33) \<le> 39 * (429496730 / 2 ^ 33)"
      by (intro mult_right_mono) simp_all
    then show "tick_iter 1000000 (fl64 (1 / 20)) i \<le> fl64 (1000002 + fl64 (1 / 10 ^ 9))"
      unfolding ti bound_1000002 by simp
  qed
  have t40: "tick_iter 1000000 (fl64 (1 / 20)) 40 = 1000000 + real 40 * (429496730 / 2 ^ 33)"
    by (intro tick_iter_1000000) simp
  have above: "\<not> tick_iter 1000000 (fl64 (1 / 20)) 40 \<le> fl64 (1000002 + fl64 (1 / 10 ^ 9))"
    unfolding t40 bound_1000002 by simp
  have eq: "map (tick_iter 1000000 (fl64 (1 / 20))) [0..<40]
      = map (\<lambda>i. 1000000 + real i * (429496730 / 2 ^ 33)) [0..<40]"
    by (intro map_cong refl) (simp add: tick_iter_1000000)
  have nz: "fl64 (1 / 20) \<noteq> 0" by (simp add: fl64_0_05)
  show ?thesis
    using getTicks_loop_unroll [OF below above, of "[]"]
    by (simp only: getTicks_def Let_def start_1000000 nz if_False eq append_Nil)
qed

lemma fl64_1e16_half: "fl64 (10 ^ 16 + 1 / 2) = 10 ^ 16"
  by (subst fl64_binade [where e = 53]) (simp_all add: round_even_def power_int_minus)

lemma bound_1e16: "fl64 (10 ^ 16 + 2 + fl64 (1 / 10 ^ 9)) = 10 ^ 16 + 2"
  unfolding fl64_1e9
  by (subst fl64_binade [where e = 53]) (simp_all add: round_even_def power_int_minus)

lemma start_1e16: "fl64 (of_int \<lceil>fl64 (10 ^ 16 / (1 / 2))\<rceil> * (1 / 2)) = 10 ^ 16"
proof -
  have q: "fl64 (10 ^ 16 / (1 / 2)) = of_int (2 * 10 ^ 16)"
    by (subst fl64_binade [where e = 54]) (simp_all add: round_even_def power_int_minus)
  have "fl64 (of_int (2 * 10 ^ 16) * (1 / 2)) = 10 ^ 16"
    by (subst fl64_binade [where e = 53]) (simp_all add: round_even_def power_int_minus)
  then show ?thesis
    by (simp only: q ceiling_of_int)
qed

lemma getTicks_loop_stalls:
  "getTicks_loop (10 ^ 16) (10 ^ 16 + 2) (1 / 2) ticks = None"
proof -
  have never: "\<not> (v = 10 ^ 16 \<and> maxv = 10 ^ 16 + 2 \<and> step = 1 / 2)"
    if "getTicks_loop v maxv step ticks = Some y" for v maxv step ticks y
  proof (rule getTicks_loop.raw_induct
      [where P = "\<lambda>v maxv step ticks y. \<not> (v = 10 ^ 16 \<and> maxv = 10 ^ 16 + 2 \<and> step = 1 / 2)",
        OF _ that])
    fix f :: "real \<Rightarrow> real \<Rightarrow> real \<Rightarrow> real list \<Rightarrow> real list option"
    fix v maxv step :: real and ticks y :: "real list"
    assume IH: "\<And>v maxv step ticks y. f v maxv step ticks = Some y \<Longrightarrow>
        \<not> (v = 10 ^ 16 \<and> maxv = 10 ^ 16 + 2 \<and> step = 1 / 2)"
      and eq: "(if v \<le> fl64 (maxv + fl64 (1 / 10 ^ 9))
          then f (fl64 (v + step)) maxv step (ticks @ [v]) else Some ticks) = Some y"
    show "\<not> (v = 10 ^ 16 \<and> maxv = 10 ^ 16 + 2 \<and> step = 1 / 2)"
    proof
      assume h: "v = 10 ^ 16 \<and> maxv = 10 ^ 16 + 2 \<and> step = 1 / 2"
      then have v: "v = 10 ^ 16" and m: "maxv = 10 ^ 16 + 2" and st: "step = 1 / 2"
        by simp_all
      have c: "(10 ^ 16 :: real) \<le> 10 ^ 16 + 2" by simp
      from eq have "f (fl64 (10 ^ 16 + 1 / 2)) (10 ^ 16 + 2) (1 / 2) (ticks @ [10 ^ 16])
          = Some y"
        by (simp only: v m st bound_1e16 c if_True)
      then have "f (10 ^ 16) (10 ^ 16 + 2) (1 / 2) (ticks @ [10 ^ 16]) = Some y"
        by (simp only: fl64_1e16_half)
      from IH [OF this] show False by simp
    qed
  qed
  show ?thesis
  proof (cases "getTicks_loop (10 ^ 16) (10 ^ 16 + 2) (1 / 2) ticks")
    case None
    then show ?thesis .
  next
    case (Some y)
    from never [OF this] show ?thesis by simp
  qed
qed

lemma getTicks_stalls: "getTicks (10 ^ 16) (10 ^ 16 + 2) (1 / 2) = None"
proof -
  have nz: "(1 / 2 :: real) \<noteq> 0" by simp
  show ?thesis
    by (simp only: getTicks_def Let_def start_1e16 getTicks_loop_stalls nz if_False)
qed

text \<open>
  C5. For a positive step and \<open>min \<le> max\<close>, \<open>getTicks\<close> is to return exactly the multiples
  \<open>k * step\<close> between \<open>ceil(min / step) * step\<close> and \<open>max\<close>, within the tolerance \<open>1e-9\<close> of
  the loop test. The code does not. With \<open>min = 1000000\<close>, \<open>max = 1000002\<close> and the step
  \<open>0.05\<close> every sum \<open>v + step\<close> is rounded up; after 40 rounds \<open>v\<close> is above \<open>max + 1e-9\<close>,
  and the array ends at 1000001.95: the multiple \<open>20000040 * step\<close>, which lies between
  \<open>ceil(min / step) * step\<close> and \<open>max + 1e-9\<close>, is further than \<open>1e-9\<close> from every tick
  returned. With \<open>min = 10\<^sup>1\<^sup>6\<close>, \<open>max = 10\<^sup>1\<^sup>6 + 2\<close> and the step \<open>0.5\<close> the sum \<open>v + step\<close> is
  rounded to \<open>v\<close> and the loop never returns.
\<close>

theorem getTicks_drops_max_or_stalls:
  "getTicks 1000000 1000002 (fl64 (1 / 20))
     = Some (map (\<lambda>i. 1000000 + real i * (429496730 / 2 ^ 33)) [0..<40])
   \<and> of_int \<lceil>1000000 / fl64 (1 / 20)\<rceil> * fl64 (1 / 20) \<le> 20000040 * fl64 (1 / 20)
   \<and> 20000040 * fl64 (1 / 20) \<le> 1000002 + 1 / 10 ^ 9
   \<and> 1000000 + 39 * (429496730 / 2 ^ 33) + 1 / 10 ^ 9 < 20000040 * fl64 (1 / 20)
   \<and> getTicks (10 ^ 16) (10 ^ 16 + 2) (1 / 2) = None"
proof -
  have "\<lceil>1000000 / (3602879701896397 / 2 ^ 56 :: real)\<rceil> = 20000000"
    by (simp add: ceiling_eq_iff)
  then have "of_int \<lceil>1000000 / fl64 (1 / 20)\<rceil> * fl64 (1 / 20) \<le> 20000040 * fl64 (1 / 20)
   \<and> 20000040 * fl64 (1 / 20) \<le> 1000002 + 1 / 10 ^ 9
   \<and> 1000000 + 39 * (429496730 / 2 ^ 33) + 1 / 10 ^ 9 < 20000040 * fl64 (1 / 20)"
    unfolding fl64_0_05 by simp
  with getTicks_overshoot getTicks_stalls show ?thesis by blast
qed

subsection \<open>Nice steps\<close>

lemma getNiceStep_positive_raw:
  assumes "0 < rng / targetTicks" and "targetTicks \<noteq> 0"
  shows "\<exists>s k. getNiceStep rng targetTicks = Num (s * 10 powi k) \<and> s \<in> {1, 2, 5, 10}
            \<and> 0 < s * 10 powi k"
proof -
  define r where "r = rng / targetTicks"
  define k where "k = \<lfloor>log 10 r\<rfloor>"
  define m :: real where "m = 10 powr of_int k"
  have m_powi: "m = 10 powi k"
    unfolding m_def by (simp add: powr_real_of_int')
  have m_pos: "0 < m" unfolding m_def by simp
  have raw: "js_div (Num rng) (Num targetTicks) = Num r"
    using assms(2) by (simp add: r_def)
  have mag: "js_pow10 (js_floor (js_log10 (Num r))) = Num m"
    using assms(1) by (simp add: r_def k_def m_def)
  have norm: "js_div (Num r) (Num m) = Num (r / m)"
    using m_pos by simp
  have step: "getNiceStep rng targetTicks =
      (if r / m < 1.5 then Num (1 * m) else if r / m < 3.5 then Num (2 * m)
       else if r / m < 7.5 then Num (5 * m) else Num (10 * m))"
    unfolding getNiceStep_def raw mag norm Let_def by simp
  define s :: real where
    "s = (if r / m < 1.5 then 1 else if r / m < 3.5 then 2 else if r / m < 7.5 then 5 else 10)"
  have "getNiceStep rng targetTicks = Num (s * 10 powi k)"
    unfolding step s_def m_powi by simp
  moreover have "s \<in> {1, 2, 5, 10}"
    by (simp add: s_def)
  moreover from this m_pos have "0 < s * 10 powi k"
    unfolding m_powi by auto
  ultimately show ?thesis by blast
qed

lemma getNiceStep_zero_raw:
  assumes "rng / targetTicks = 0" and "targetTicks \<noteq> 0"
  shows "getNiceStep rng targetTicks = Num 0"
  using assms by (simp add: getNiceStep_def)

lemma getNiceStep_negative_raw:
  assumes "rng / targetTicks < 0" and "targetTicks \<noteq> 0"
  shows "getNiceStep rng targetTicks = NaN"
proof -
  have raw: "js_div (Num rng) (Num targetTicks) = Num (rng / targetTicks)"
    using assms(2) by simp
  have "js_log10 (Num (rng / targetTicks)) = NaN"
    using assms(1) by auto
  then show ?thesis
    unfolding getNiceStep_def raw by (simp add: Let_def)
qed

lemma getNiceStep_zero_ticks:
  "getNiceStep rng 0 = (if 0 < rng then PosInf else NaN)"
  by (simp add: getNiceStep_def)

lemma getNiceStep_not_negative:
  "getNiceStep rng targetTicks \<noteq> NegInf
   \<and> (\<forall>v. getNiceStep rng targetTicks = Num v \<longrightarrow> 0 \<le> v)"
proof (cases "targetTicks = 0")
  case True
  then show ?thesis by (simp add: getNiceStep_zero_ticks)
next
  case False
  consider "0 < rng / targetTicks" | "rng / targetTicks = 0" | "rng / targetTicks < 0"
    by linarith
  then show ?thesis
  proof cases
    case 1
    from getNiceStep_positive_raw [OF 1 False] show ?thesis by auto
  next
    case 2
    from getNiceStep_zero_raw [OF 2 False] show ?thesis by simp
  next
    case 3
    from getNiceStep_negative_raw [OF 3 False] show ?thesis by simp
  qed
qed

text \<open>
  C7, as the claim states it, fails: no error is signalled for a range that is not
  positive. For a range of 0 and the default 5 ticks \<open>getNiceStep\<close> returns the step 0.
\<close>

theorem niceStep_zero_range_counterexample:
  "getNiceStep 0 5 = Num 0"
  by (simp add: getNiceStep_def)

text \<open>
  C7, amended. \<open>getNiceStep\<close> signals no error. For a positive range and a positive
  number of ticks it returns a strictly positive step \<open>s * 10\<^sup>k\<close> with \<open>s\<close> one of 1, 2,
  5, 10 and \<open>k\<close> an integer; for a range of 0 it returns 0 and for a negative range NaN
  (with a positive number of ticks); it never returns a negative step.
\<close>

theorem niceStep_positive_no_error:
  "(0 < rng \<and> 0 < targetTicks \<longrightarrow>
      (\<exists>s k. getNiceStep rng targetTicks = Num (s * 10 powi k) \<and> s \<in> {1, 2, 5, 10}
            \<and> 0 < s * 10 powi k))
   \<and> (0 < targetTicks \<longrightarrow> getNiceStep 0 targetTicks = Num 0)
   \<and> (rng < 0 \<and> 0 < targetTicks \<longrightarrow> getNiceStep rng targetTicks = NaN)
   \<and> getNiceStep rng targetTicks \<noteq> NegInf
   \<and> (\<forall>v. getNiceStep rng targetTicks = Num v \<longrightarrow> 0 \<le> v)"
proof (intro conjI impI)
  assume "0 < rng \<and> 0 < targetTicks"
  then have "0 < rng / targetTicks" and "targetTicks \<noteq> 0" by simp_all
  then show "\<exists>s k. getNiceStep rng targetTicks = Num (s * 10 powi k) \<and> s \<in> {1, 2, 5, 10}
            \<and> 0 < s * 10 powi k"
    by (rule getNiceStep_positive_raw)
next
  assume "0 < targetTicks"
  then show "getNiceStep 0 targetTicks = Num 0"
    by (intro getNiceStep_zero_raw) simp_all
next
  assume "rng < 0 \<and> 0 < targetTicks"
  then have "rng / targetTicks < 0" and "targetTicks \<noteq> 0"
    by (simp_all add: divide_neg_pos)
  then show "getNiceStep rng targetTicks = NaN"
    by (rule getNiceStep_negative_raw)
next
  show "getNiceStep rng targetTicks \<noteq> NegInf"
    using getNiceStep_not_negative by blast
next
  show "\<forall>v. getNiceStep rng targetTicks = Num v \<longrightarrow> 0 \<le> v"
    using getNiceStep_not_negative by blast
qed

theorem niceStep_positive_no_error_witness:
  "(0 :: real) < 10 \<and> (0 :: real) < 8
   \<and> (\<exists>s k. getNiceStep 10 8 = Num (s * 10 powi k) \<and> s \<in> {1, 2, 5, 10}
          \<and> 0 < s * 10 powi k)
   \<and> getNiceStep 10 8 = Num 1
   \<and> getNiceStep 0 8 = Num 0
   \<and> (- 10 :: real) < 0 \<and> getNiceStep (- 10) 8 = NaN"
proof -
  have "\<lfloor>log 10 (5 / 4 :: real)\<rfloor> = 0"
    by (subst floor_log_eq_powr_iff) simp_all
  then have "getNiceStep 10 8 = Num 1"
    by (simp add: getNiceStep_def)
  then show ?thesis
    using niceStep_positive_no_error [of 10 8] niceStep_positive_no_error [of "- 10" 8]
    by simp
qed

subsection \<open>The colour ramp\<close>

lemma toHex_0: "toHex 0 = ''00''"
  by (simp add: toHex_def toString16_def toString16_nat.simps hexDigit_def padStart2_def)

lemma toHex_255: "toHex 255 = ''ff''"
  by (simp add: toHex_def toString16_def toString16_nat.simps hexDigit_def padStart2_def)

lemma getColor_of_t_0: "getColor_of_t (Num 0) = ''#0000ff''"
  by (simp add: getColor_of_t_def stops_def lerp_def rgbToHex_def toHex_0 toHex_255)

lemma getColor_of_t_1: "getColor_of_t (Num 1) = ''#ff0000''"
  by (simp add: getColor_of_t_def stops_def lerp_def rgbToHex_def toHex_0 toHex_255)

lemma getColor_t_negative: "maxv < 0 \<Longrightarrow> getColor_t maxv p = Num 0"
  by (simp add: getColor_t_def)

text \<open>
  C6, as the claim states it, fails at \<open>max = 0\<close>. In HydraulicLines \<open>t\<close> is then
  \<open>0 / 0\<close>, NaN, and the fallback red is returned; HydraulicCylinder2D replaces the 0 by
  300, and the pressure 300 is red.
\<close>

theorem getColor_zero_max_counterexample:
  "HydraulicLines_getColor (Some 0) 100 = ''#ff0000''
   \<and> HydraulicLines_getColor (Some 0) 100 \<noteq> ''#0000ff''
   \<and> HydraulicCylinder2D_getColor (Some 0) 300 = ''#ff0000''
   \<and> HydraulicCylinder2D_getColor (Some 0) 300 \<noteq> ''#0000ff''"
proof -
  have "HydraulicLines_getColor (Some 0) 100 = ''#ff0000''"
    by (simp add: HydraulicLines_getColor_def getColor_t_def getColor_of_t_def)
  moreover have "HydraulicCylinder2D_getColor (Some 0) 300 = ''#ff0000''"
    by (simp add: HydraulicCylinder2D_getColor_def getColor_t_def getColor_of_t_1)
  ultimately show ?thesis by simp
qed

text \<open>
  C6, amended. For \<open>max \<noteq> 0\<close> the ramp normalises \<open>t = clamp(value, 0, max) / max\<close>; for
  \<open>max < 0\<close> this is \<open>t = 0\<close> and both components return the first stop colour, blue
  \<^verbatim>\<open>#0000ff\<close>, for every value. HydraulicCylinder2D computes with 300 in place of a
  \<open>max\<close> of 0.
\<close>

theorem getColor_normalised:
  "(maxv \<noteq> 0 \<longrightarrow> getColor_t maxv p = Num (max 0 (min p maxv) / maxv))
   \<and> (maxv < 0 \<longrightarrow> getColor_t maxv p = Num 0
        \<and> HydraulicLines_getColor (Some maxv) p = ''#0000ff''
        \<and> HydraulicCylinder2D_getColor (Some maxv) p = ''#0000ff'')
   \<and> HydraulicCylinder2D_getColor (Some 0) p = HydraulicCylinder2D_getColor (Some 300) p"
proof (intro conjI impI)
  assume "maxv \<noteq> 0"
  then show "getColor_t maxv p = Num (max 0 (min p maxv) / maxv)"
    by (simp add: getColor_t_def)
next
  assume neg: "maxv < 0"
  then show "getColor_t maxv p = Num 0"
    by (rule getColor_t_negative)
  from neg show "HydraulicLines_getColor (Some maxv) p = ''#0000ff''"
    by (simp add: HydraulicLines_getColor_def getColor_t_negative getColor_of_t_0)
  from neg show "HydraulicCylinder2D_getColor (Some maxv) p = ''#0000ff''"
    by (simp add: HydraulicCylinder2D_getColor_def getColor_t_negative getColor_of_t_0)
next
  show "HydraulicCylinder2D_getColor (Some 0) p = HydraulicCylinder2D_getColor (Some 300) p"
    by (simp add: HydraulicCylinder2D_getColor_def)
qed

theorem getColor_normalised_witness:
  "(- 5 :: real) \<noteq> 0 \<and> (- 5 :: real) < 0
   \<and> getColor_t (- 5) 100 = Num 0
   \<and> HydraulicLines_getColor (Some (- 5)) 100 = ''#0000ff''
   \<and> HydraulicCylinder2D_getColor (Some (- 5)) 100 = ''#0000ff''
   \<and> (300 :: real) \<noteq> 0 \<and> getColor_t 300 150 = Num (1 / 2)"
  using getColor_normalised [of "- 5" 100] getColor_normalised [of 300 150]
  by simp

end
